theory Spec2Isabelle
  imports Complex_Main "HOL-Library.Char_ord" "HOL-Library.List_Lexorder"
begin

section \<open>Strings as the engine uses them\<close>

text \<open>
  Python strings are modelled as \<^typ>\<open>string\<close>; the characters that matter to the engine
  (letters, digits, the underscore, white space) are ASCII. A value read with
  \<^verbatim>\<open>dict.get\<close> from a registry object is a \<^typ>\<open>string option\<close>: \<open>None\<close> is both a
  missing key and a JSON null, exactly as \<^verbatim>\<open>.get\<close> reports them.
\<close>

definition truthy :: "string option \<Rightarrow> bool" where
  "truthy v = (case v of None \<Rightarrow> False | Some s \<Rightarrow> s \<noteq> [])"

definition str_or_empty :: "string option \<Rightarrow> string" where
  \<comment> \<open>\<^verbatim>\<open>str(v or "")\<close>\<close>
  "str_or_empty v = (case v of None \<Rightarrow> [] | Some s \<Rightarrow> s)"

definition py_or :: "string option \<Rightarrow> string option \<Rightarrow> string option" where
  \<comment> \<open>\<^verbatim>\<open>x or y\<close>\<close>
  "py_or x y = (if truthy x then x else y)"

definition ascii_upper :: string where
  "ascii_upper = ''ABCDEFGHIJKLMNOPQRSTUVWXYZ''"

definition ascii_lower :: string where
  "ascii_lower = ''abcdefghijklmnopqrstuvwxyz''"

definition ascii_digits :: string where
  "ascii_digits = ''0123456789''"

definition lower_char :: "char \<Rightarrow> char" where
  "lower_char c = (case map_of (zip ascii_upper ascii_lower) c of Some l \<Rightarrow> l | None \<Rightarrow> c)"

definition lower :: "string \<Rightarrow> string" where
  "lower s = map lower_char s"

definition is_space :: "char \<Rightarrow> bool" where
  "is_space c = (c \<in> set [CHR '' '', CHR 0x09, CHR 0x0A, CHR 0x0B, CHR 0x0C, CHR 0x0D,
                           CHR 0x1C, CHR 0x1D, CHR 0x1E, CHR 0x1F])"

definition strip :: "string \<Rightarrow> string" where
  "strip s = rev (dropWhile is_space (rev (dropWhile is_space s)))"

definition is_sep :: "char \<Rightarrow> bool" where
  \<comment> \<open>the character class \<^verbatim>\<open>[^a-z0-9]\<close>\<close>
  "is_sep c = (c \<notin> set (ascii_lower @ ascii_digits))"

text \<open>\<^verbatim>\<open>_split_re.split(s)\<close>: the pieces between maximal runs of separators.\<close>

fun re_split :: "string \<Rightarrow> string list" where
  "re_split [] = [[]]"
| "re_split (c # cs) =
     (if is_sep c then
        (case cs of
           [] \<Rightarrow> [[], []]
         | d # _ \<Rightarrow> if is_sep d then re_split cs else [] # re_split cs)
      else
        (case re_split cs of
           [] \<Rightarrow> [[c]]
         | f # fs \<Rightarrow> (c # f) # fs))"

definition tokenize :: "string \<Rightarrow> string set" where
  "tokenize s0 =
     (let s = lower (strip s0)
      in if s = [] then {} else set (filter (\<lambda>t. t \<noteq> []) (re_split s)))"

subsection \<open>Suffix duplicates\<close>

definition newline :: char where
  "newline = CHR 0x0A"

definition suffix_ok :: "string \<Rightarrow> bool" where
  \<comment> \<open>the alternative \<^verbatim>\<open>([2-9]|[1-9][0-9]+)\<close>\<close>
  "suffix_ok d =
     (case d of
        [] \<Rightarrow> False
      | [c] \<Rightarrow> c \<in> set ''23456789''
      | c # cs \<Rightarrow> c \<in> set ''123456789'' \<and> list_all (\<lambda>x. x \<in> set ascii_digits) cs)"

text \<open>
  \<^verbatim>\<open>re.match(r"^(?P<base>.+)_([2-9]|[1-9][0-9]+)$", entity_id)\<close>. The suffix holds no
  underscore, so the base ends at the last underscore; \<^verbatim>\<open>.\<close> matches no line break and
  \<^verbatim>\<open>$\<close> also matches just before one final line break.
\<close>

definition is_suffix_duplicate_entity :: "string \<Rightarrow> bool \<times> string" where
  "is_suffix_duplicate_entity entity_id =
     (let body = (if entity_id \<noteq> [] \<and> last entity_id = newline
                  then butlast entity_id else entity_id);
          rsuf = takeWhile (\<lambda>c. c \<noteq> CHR ''_'') (rev body);
          rest = drop (length rsuf) (rev body)
      in case rest of
           [] \<Rightarrow> (False, entity_id)
         | u # rbase \<Rightarrow>
             if rbase \<noteq> [] \<and> newline \<notin> set rbase \<and> suffix_ok (rev rsuf)
             then (True, rev rbase) else (False, entity_id))"

text \<open>\<^verbatim>\<open>str(n)\<close> for a natural number.\<close>

definition digit_char :: "nat \<Rightarrow> char" where
  "digit_char n = ascii_digits ! n"

function decimal :: "nat \<Rightarrow> string" where
  "decimal n = (if n < 10 then [digit_char n] else decimal (n div 10) @ [digit_char (n mod 10)])"
  by pat_completeness auto
termination
  by (relation "measure id") auto

declare decimal.simps [simp del]

section \<open>Actions and fingerprints\<close>

type_synonym payload = "(string \<times> string option) list"

definition py_get :: "payload \<Rightarrow> string \<Rightarrow> string option" where
  \<comment> \<open>\<^verbatim>\<open>p.get(k)\<close>: a missing key and a null value both give \<open>None\<close>\<close>
  "py_get p k = (case map_of p k of None \<Rightarrow> None | Some v \<Rightarrow> v)"

record action =
  a_id :: string
  a_type :: string
  a_payload :: payload
  a_reason :: string
  a_confidence :: rat
  a_requires_approval :: bool

definition action_fingerprint :: "action \<Rightarrow> string" where
  "action_fingerprint a =
     (let p = a_payload a;
          key = py_or (py_or (py_or (py_or (py_get p ''entity_id'') (py_get p ''device_id''))
                                    (py_get p ''area_id''))
                             (py_get p ''name''))
                      (Some [])
      in a_type a @ '':'' @ str_or_empty key)"

definition visible_actions :: "string list \<Rightarrow> action list \<Rightarrow> action list" where
  \<comment> \<open>\<^verbatim>\<open>[a for a in all_actions if self.action_fingerprint(a) not in ignored]\<close>\<close>
  "visible_actions ignored all_actions =
     filter (\<lambda>a. action_fingerprint a \<notin> set ignored) all_actions"

text \<open>
  The data model's wording of the key, for comparison with the code: the value of the
  first of the four keys that is present in the payload.
\<close>

definition first_present_key :: "payload \<Rightarrow> string" where
  "first_present_key p =
     (case filter (\<lambda>k. k \<in> fst ` set p) [''entity_id'', ''device_id'', ''area_id'', ''name''] of
        [] \<Rightarrow> []
      | k # _ \<Rightarrow> str_or_empty (py_get p k))"

definition first_nonempty_key :: "payload \<Rightarrow> string" where
  "first_nonempty_key p =
     (case filter (\<lambda>k. truthy (py_get p k)) [''entity_id'', ''device_id'', ''area_id'', ''name''] of
        [] \<Rightarrow> []
      | k # _ \<Rightarrow> str_or_empty (py_get p k))"

section \<open>Registry objects and the registry client\<close>

record area =
  ar_area_id :: "string option"
  ar_name :: "string option"

record device =
  d_id :: "string option"
  d_name :: "string option"
  d_name_by_user :: "string option"
  d_area_id :: "string option"

record entity =
  e_entity_id :: "string option"
  e_unique_id :: "string option"
  e_name :: "string option"
  e_original_name :: "string option"
  e_device_id :: "string option"
  e_area_id :: "string option"
  e_hidden_by :: "string option"
  e_disabled_by :: "string option"

record live_state =
  s_entity_id :: "string option"
  s_state :: "string option"
  s_friendly_name :: "string option"

text \<open>
  The methods of \<^verbatim>\<open>HAWebSocketClient\<close> the engine calls. Keyword arguments are a list of
  field and value, \<open>None\<close> being an explicit null.
\<close>

datatype call =
    Area_list
  | Area_create string
  | Area_update string payload
  | Entity_list
  | Entity_update string payload
  | Entity_remove string
  | Device_list
  | Device_update string payload
  | Get_states

datatype reply =
    Areas "area list"
  | Devices "device list"
  | Entities "entity list"
  | States "live_state list"
  | Result payload

text \<open>
  A client is any deterministic function of its own state \<open>'h\<close> (connection, registry
  behind it): a call either raises (\<open>Inl\<close> the message of the exception) or returns. The
  engine's world is the client state together with the calls issued so far.
\<close>

type_synonym 'h client = "call \<Rightarrow> 'h \<Rightarrow> (string + reply) \<times> 'h"

type_synonym 'h world = "'h \<times> call list"

definition send :: "'h client \<Rightarrow> call \<Rightarrow> 'h world \<Rightarrow> (string + reply) \<times> 'h world" where
  "send ha c w = (case ha c (fst w) of (r, h') \<Rightarrow> (r, (h', snd w @ [c])))"

definition dict_of :: "('k \<times> 'v) list \<Rightarrow> 'k \<rightharpoonup> 'v" where
  \<comment> \<open>a dict comprehension: a later entry with the same key replaces an earlier one\<close>
  "dict_of kvs = map_of (rev kvs)"

definition by_key :: "('a \<Rightarrow> string option) \<Rightarrow> 'a list \<Rightarrow> string \<rightharpoonup> 'a" where
  \<comment> \<open>\<^verbatim>\<open>{x.get(key): x for x in xs if x.get(key)}\<close>\<close>
  "by_key key xs = dict_of (map (\<lambda>x. (str_or_empty (key x), x)) (filter (\<lambda>x. truthy (key x)) xs))"

section \<open>Persisted documents\<close>

datatype rollback_step =
    Entity_step string payload
  | Device_step string payload
  | Area_step string payload
  | Note "string option" string
  | Entity_restore_note string "entity option"
  | Other_step string

record rollback_record =
  rb_created_at :: string
  rb_steps :: "rollback_step list"

record plan_doc =
  p_created_at :: string
  p_rules :: "string option \<times> string option"
  p_actions :: "action list"
  p_area_name_by_id :: "(string \<times> string) list"
  p_ignored_count :: nat

record files =
  plan_json :: "plan_doc option"
  rollback_json :: "rollback_record option"
  ignored_json :: "string list option"

definition load_ignored :: "files \<Rightarrow> string list" where
  "load_ignored fs = (case ignored_json fs of None \<Rightarrow> [] | Some l \<Rightarrow> l)"

section \<open>Apply\<close>

record registry_snapshot =
  entity_by_id :: "string \<rightharpoonup> entity"
  area_by_name :: "string \<rightharpoonup> area"
  device_by_id :: "string \<rightharpoonup> device"
  area_by_id :: "string \<rightharpoonup> area"

record apply_acc =
  rollback_steps :: "rollback_step list"
  applied :: "string list"
  skipped :: "(string \<times> string) list"

definition skip :: "string \<Rightarrow> string \<Rightarrow> apply_acc \<Rightarrow> apply_acc" where
  "skip aid why acc = acc\<lparr>skipped := skipped acc @ [(aid, why)]\<rparr>"

definition before_of :: "('a \<Rightarrow> string option) \<Rightarrow> 'a option \<Rightarrow> string option" where
  \<comment> \<open>\<^verbatim>\<open>some_by_id.get(key, {}).get(field)\<close>\<close>
  "before_of field obj = (case obj of None \<Rightarrow> None | Some x \<Rightarrow> field x)"

text \<open>
  One mutation of a handler: the rollback step is appended first, then the client is
  called, then the action id is recorded. An exception of the call leaves the handler
  (and the loop) at once.
\<close>

definition mutate ::
  "'h client \<Rightarrow> string \<Rightarrow> rollback_step \<Rightarrow> call \<Rightarrow> apply_acc \<Rightarrow> 'h world
     \<Rightarrow> (string + apply_acc) \<times> 'h world" where
  "mutate ha aid step c acc w =
     (case send ha c w of
        (Inl err, w') \<Rightarrow> (Inl err, w')
      | (Inr _, w') \<Rightarrow>
          (Inr (acc\<lparr>rollback_steps := rollback_steps acc @ [step],
                    applied := applied acc @ [aid]\<rparr>), w'))"

definition apply_action ::
  "'h client \<Rightarrow> registry_snapshot \<Rightarrow> string set \<Rightarrow> action \<Rightarrow> apply_acc \<Rightarrow> 'h world
     \<Rightarrow> (string + apply_acc) \<times> 'h world" where
  "apply_action ha snap approved a acc w =
     (let aid = a_id a; atype = a_type a; payload = a_payload a in
      if a_requires_approval a \<and> aid \<notin> approved then
        (Inr (skip aid ''requires_approval'' acc), w)
      else if atype = ''create_area'' then
        (let name = py_get payload ''name'' in
         if \<not> truthy name then (Inr (skip aid ''missing name'' acc), w)
         else if str_or_empty name \<in> dom (area_by_name snap) then
           (Inr (acc\<lparr>applied := applied acc @ [aid]\<rparr>), w)
         else
           (case send ha (Area_create (str_or_empty name)) w of
              (Inl err, w') \<Rightarrow> (Inl err, w')
            | (Inr (Result res), w') \<Rightarrow>
                (Inr (acc\<lparr>rollback_steps := rollback_steps acc
                              @ [Note (py_get res ''area_id'') (str_or_empty name)],
                          applied := applied acc @ [aid]\<rparr>), w')
            | (Inr _, w') \<Rightarrow> (Inl ''AttributeError'', w')))
      else if atype = ''set_entity_area'' then
        (let entity_id = py_get payload ''entity_id''; area_id = py_get payload ''area_id'' in
         if \<not> truthy entity_id \<or> \<not> truthy area_id then
           (Inr (skip aid ''missing entity_id/area_id'' acc), w)
         else
           (let eid = str_or_empty entity_id; prior = entity_by_id snap eid in
            mutate ha aid (Entity_step eid [(''area_id'', before_of e_area_id prior)])
              (Entity_update eid [(''area_id'', area_id)]) acc w))
      else if atype = ''set_device_area'' then
        (let device_id = py_get payload ''device_id''; area_id = py_get payload ''area_id'' in
         if \<not> truthy device_id \<or> \<not> truthy area_id then
           (Inr (skip aid ''missing device_id/area_id'' acc), w)
         else
           (let did = str_or_empty device_id; prior = device_by_id snap did in
            mutate ha aid (Device_step did [(''area_id'', before_of d_area_id prior)])
              (Device_update did [(''area_id'', area_id)]) acc w))
      else if atype = ''rename_entity'' then
        (let entity_id = py_get payload ''entity_id''; name = py_get payload ''name'' in
         if \<not> truthy entity_id \<or> \<not> truthy name then
           (Inr (skip aid ''missing entity_id/name'' acc), w)
         else
           (let eid = str_or_empty entity_id; prior = entity_by_id snap eid in
            mutate ha aid (Entity_step eid [(''name'', before_of e_name prior)])
              (Entity_update eid [(''name'', name)]) acc w))
      else if atype = ''hide_entity'' then
        (let entity_id = py_get payload ''entity_id'';
             hidden_by = (case map_of payload ''hidden_by'' of None \<Rightarrow> Some ''user'' | Some v \<Rightarrow> v) in
         if \<not> truthy entity_id then (Inr (skip aid ''missing entity_id'' acc), w)
         else
           (let eid = str_or_empty entity_id; prior = entity_by_id snap eid;
                step = Entity_step eid [(''hidden_by'', before_of e_hidden_by prior),
                                        (''disabled_by'', before_of e_disabled_by prior)]
            in case send ha (Entity_update eid [(''hidden_by'', hidden_by)]) w of
                 (Inr _, w') \<Rightarrow>
                   (Inr (acc\<lparr>rollback_steps := rollback_steps acc @ [step],
                             applied := applied acc @ [aid]\<rparr>), w')
               | (Inl _, w') \<Rightarrow>
                   mutate ha aid step (Entity_update eid [(''disabled_by'', hidden_by)]) acc w'))
      else if atype = ''remove_entity_registry_entry'' then
        (let entity_id = py_get payload ''entity_id'' in
         if \<not> truthy entity_id then (Inr (skip aid ''missing entity_id'' acc), w)
         else
           (let eid = str_or_empty entity_id; prior = entity_by_id snap eid in
            mutate ha aid (Entity_restore_note eid prior) (Entity_remove eid) acc w))
      else if atype = ''rename_device'' then
        (let device_id = py_get payload ''device_id''; name = py_get payload ''name'' in
         if \<not> truthy device_id \<or> \<not> truthy name then
           (Inr (skip aid ''missing device_id/name'' acc), w)
         else
           (let did = str_or_empty device_id; prior = device_by_id snap did in
            mutate ha aid (Device_step did [(''name_by_user'', before_of d_name_by_user prior)])
              (Device_update did [(''name_by_user'', name)]) acc w))
      else if atype = ''rename_area'' then
        (let area_id = py_get payload ''area_id''; name = py_get payload ''name'' in
         if \<not> truthy area_id \<or> \<not> truthy name then
           (Inr (skip aid ''missing area_id/name'' acc), w)
         else
           (let arid = str_or_empty area_id; prior = area_by_id snap arid in
            mutate ha aid (Area_step arid [(''name'', before_of ar_name prior)])
              (Area_update arid [(''name'', name)]) acc w))
      else (Inr (skip aid (''unsupported action type '' @ atype) acc), w))"

fun apply_loop ::
  "'h client \<Rightarrow> registry_snapshot \<Rightarrow> string set \<Rightarrow> action list \<Rightarrow> apply_acc \<Rightarrow> 'h world
     \<Rightarrow> (string + apply_acc) \<times> 'h world" where
  "apply_loop ha snap approved [] acc w = (Inr acc, w)"
| "apply_loop ha snap approved (a # as) acc w =
     (case apply_action ha snap approved a acc w of
        (Inl err, w') \<Rightarrow> (Inl err, w')
      | (Inr acc', w') \<Rightarrow> apply_loop ha snap approved as acc' w')"

text \<open>The three registry reads at the start of \<^verbatim>\<open>apply\<close>, in the order of the code.\<close>

definition fetch_for_apply :: "'h client \<Rightarrow> 'h world \<Rightarrow> (string + registry_snapshot) \<times> 'h world" where
  "fetch_for_apply ha w =
     (case send ha Entity_list w of
        (Inl err, w1) \<Rightarrow> (Inl err, w1)
      | (Inr (Entities entities), w1) \<Rightarrow>
          (case send ha Area_list w1 of
             (Inl err, w2) \<Rightarrow> (Inl err, w2)
           | (Inr (Areas areas), w2) \<Rightarrow>
               (case send ha Device_list w2 of
                  (Inl err, w3) \<Rightarrow> (Inl err, w3)
                | (Inr (Devices devices), w3) \<Rightarrow>
                    (Inr \<lparr>entity_by_id = by_key e_entity_id entities,
                          area_by_name = by_key ar_name areas,
                          device_by_id = by_key d_id devices,
                          area_by_id = by_key ar_area_id areas\<rparr>, w3)
                | (Inr _, w3) \<Rightarrow> (Inl ''TypeError'', w3))
           | (Inr _, w2) \<Rightarrow> (Inl ''TypeError'', w2))
      | (Inr _, w1) \<Rightarrow> (Inl ''TypeError'', w1))"

record apply_result =
  applied_action_ids :: "string list"
  res_skipped :: "(string \<times> string) list"
  res_rollback :: rollback_record

definition apply_plan ::
  "'h client \<Rightarrow> string \<Rightarrow> string list \<Rightarrow> files \<Rightarrow> 'h world
     \<Rightarrow> (string + apply_result) \<times> files \<times> 'h world" where
  "apply_plan ha now approved_action_ids fs w =
     (case plan_json fs of
        None \<Rightarrow> (Inl ''No plan.json found; run /plan first'', fs, w)
      | Some plan \<Rightarrow>
          (case fetch_for_apply ha w of
             (Inl err, w') \<Rightarrow> (Inl err, fs, w')
           | (Inr snap, w') \<Rightarrow>
               (case apply_loop ha snap (set approved_action_ids) (p_actions plan)
                       \<lparr>rollback_steps = [], applied = [], skipped = []\<rparr> w' of
                  (Inl err, w'') \<Rightarrow> (Inl err, fs, w'')
                | (Inr acc, w'') \<Rightarrow>
                    (let rb = \<lparr>rb_created_at = now, rb_steps = rollback_steps acc\<rparr>
                     in (Inr \<lparr>applied_action_ids = applied acc, res_skipped = skipped acc,
                              res_rollback = rb\<rparr>,
                         fs\<lparr>rollback_json := Some rb\<rparr>, w'')))))"

section \<open>Rollback\<close>

datatype rollback_result =
    No_rollback
  | Rolled_back bool nat "(rollback_step \<times> string) list"

record rollback_acc =
  reverted :: nat
  errors :: "(rollback_step \<times> string) list"

definition kwargs_clash :: "string list \<Rightarrow> payload \<Rightarrow> bool" where
  \<comment> \<open>\<^verbatim>\<open>method(param=..., **kw)\<close> where \<open>kw\<close> names a parameter of the method again:
      Python raises \<^verbatim>\<open>TypeError\<close> before the method runs\<close>
  "kwargs_clash params kw = (\<exists>k \<in> set (map fst kw). k \<in> set params)"

definition attempt ::
  "'h client \<Rightarrow> rollback_step \<Rightarrow> call \<Rightarrow> rollback_acc \<times> 'h world \<Rightarrow> rollback_acc \<times> 'h world" where
  \<comment> \<open>an awaited client call inside the \<^verbatim>\<open>try\<close>, followed by \<^verbatim>\<open>reverted += 1\<close>\<close>
  "attempt ha st c s =
     (case s of (acc, w) \<Rightarrow>
        (case send ha c w of
           (Inl err, w') \<Rightarrow> (acc\<lparr>errors := errors acc @ [(st, err)]\<rparr>, w')
         | (Inr _, w') \<Rightarrow> (acc\<lparr>reverted := reverted acc + 1\<rparr>, w')))"

definition type_error :: "rollback_step \<Rightarrow> rollback_acc \<times> 'h world \<Rightarrow> rollback_acc \<times> 'h world" where
  "type_error st s = (case s of (acc, w) \<Rightarrow> (acc\<lparr>errors := errors acc @ [(st, ''TypeError'')]\<rparr>, w))"

definition rollback_one ::
  "'h client \<Rightarrow> rollback_step \<Rightarrow> rollback_acc \<times> 'h world \<Rightarrow> rollback_acc \<times> 'h world" where
  "rollback_one ha st s =
     (case st of
        Entity_step entity_id prior \<Rightarrow>
          if kwargs_clash [''self'', ''entity_id''] prior then type_error st s
          else attempt ha st (Entity_update entity_id prior) s
      | Device_step device_id prior \<Rightarrow>
          if kwargs_clash [''self'', ''device_id''] prior then type_error st s
          else attempt ha st (Device_update device_id prior) s
      | Area_step area_id prior \<Rightarrow>
          (let clean = filter (\<lambda>kv. snd kv \<noteq> None) prior in
           if clean \<noteq> [] then
             (if \<exists>k \<in> set (map fst clean). k \<noteq> ''name'' then type_error st s
              else attempt ha st (Area_update area_id clean) s)
           else (case s of (acc, w) \<Rightarrow> (acc\<lparr>reverted := reverted acc + 1\<rparr>, w)))
      | Note area_id name \<Rightarrow> s
      | Entity_restore_note entity_id prior \<Rightarrow> s
      | Other_step stype \<Rightarrow> s)"

definition rollback :: "'h client \<Rightarrow> files \<Rightarrow> 'h world \<Rightarrow> rollback_result \<times> 'h world" where
  "rollback ha fs w =
     (case rollback_json fs of
        None \<Rightarrow> (No_rollback, w)
      | Some rb \<Rightarrow>
          (case fold (rollback_one ha) (rev (rb_steps rb)) (\<lparr>reverted = 0, errors = []\<rparr>, w) of
             (acc, w') \<Rightarrow> (Rolled_back (errors acc = []) (reverted acc) (errors acc), w')))"

section \<open>Planning\<close>

subsection \<open>Helpers of the engine module\<close>

definition is_active_state :: "live_state option \<Rightarrow> bool" where
  "is_active_state state_obj =
     (case state_obj of
        None \<Rightarrow> False
      | Some so \<Rightarrow> (case s_state so of None \<Rightarrow> False | Some st \<Rightarrow> st \<noteq> ''unavailable''))"

definition effective_area_id :: "entity \<Rightarrow> (string \<rightharpoonup> device) \<Rightarrow> string option" where
  "effective_area_id entity_reg dev_by_id =
     (if truthy (e_area_id entity_reg) then e_area_id entity_reg
      else if \<not> truthy (e_device_id entity_reg) then None
      else before_of d_area_id (dev_by_id (str_or_empty (e_device_id entity_reg))))"

definition normalize_name :: "string \<Rightarrow> string" where
  "normalize_name s = lower (strip s)"

definition startswith :: "string \<Rightarrow> string \<Rightarrow> bool" where
  "startswith s p = (take (length p) s = p)"

fun contains :: "string \<Rightarrow> string \<Rightarrow> bool" where
  \<comment> \<open>\<^verbatim>\<open>sub in s\<close>\<close>
  "contains sub [] = (sub = [])"
| "contains sub (c # cs) = (startswith (c # cs) sub \<or> contains sub cs)"

definition generic_names :: "string list" where
  "generic_names = [''tv'', ''speaker'', ''speakers'', ''chromecast'', ''google cast'',
     ''google home'', ''media player'', ''mediaplayer'', ''nest audio'', ''nest mini'',
     ''home'', ''default'', ''unknown'']"

definition looks_generic_media_name :: "string \<Rightarrow> bool" where
  "looks_generic_media_name name =
     (let n = normalize_name name
      in if n = [] then True else n \<in> set generic_names \<or> startswith n ''media player'')"

definition media_base_label :: "string \<Rightarrow> string \<Rightarrow> string" where
  "media_base_label entity_id friendly =
     (let hay = normalize_name entity_id @ '' '' @ normalize_name friendly
      in if contains ''tv'' hay then ''TV''
         else if contains ''speaker'' hay \<or> contains ''sonos'' hay \<or> contains ''nest'' hay
           then ''Speaker''
         else if contains ''beamer'' hay \<or> contains ''projector'' hay then ''Beamer''
         else ''Media'')"

definition quoted :: "string \<Rightarrow> string" where
  "quoted s = [CHR 0x27] @ s @ [CHR 0x27]"

definition first_occurrences :: "'a list \<Rightarrow> 'a list" where
  \<comment> \<open>the keys of a dict filled in this order\<close>
  "first_occurrences xs = rev (remdups (rev xs))"

subsection \<open>Rules\<close>

text \<open>
  The rule document after \<^verbatim>\<open>yaml.safe_load\<close>. Entries that are not mappings (and ids or
  keywords that are not strings) are passed over by every loop, so only the mappings are
  kept. An optional flag is \<open>None\<close> when its key is missing and \<open>Some (bool(value))\<close>
  otherwise.
\<close>

record rename_rule =
  rn_from :: "string option"
  rn_to :: "string option"
  rn_requires_approval :: "bool option"

record regex_rule =
  rx_pattern :: "string option"
  rx_requires_approval :: "bool option"

record area_rule =
  au_pattern :: "string option"
  au_area :: "string option"
  au_overwrite :: "bool option"
  au_requires_approval :: "bool option"

record helper_rule =
  hr_area :: "string option"
  hr_keywords :: "string list"
  hr_requires_approval :: "bool option"

record rules =
  area_renames :: "rename_rule list"
  entity_remove_ids :: "string list"
  entity_remove_regex :: "regex_rule list"
  entity_hide_ids :: "string list"
  entity_hide_regex :: "regex_rule list"
  entity_area :: "area_rule list"
  device_area :: "area_rule list"
  helper_area_rules :: "helper_rule list"

definition flag :: "bool \<Rightarrow> bool option \<Rightarrow> bool" where
  \<comment> \<open>\<^verbatim>\<open>bool(r.get(key, default))\<close>\<close>
  "flag dflt v = (case v of None \<Rightarrow> dflt | Some b \<Rightarrow> b)"

text \<open>
  \<^verbatim>\<open>_compile_regex\<close>: \<open>None\<close> when the pattern does not compile, otherwise the
  predicate \<^verbatim>\<open>rx.search(s) is not None\<close> (case-insensitive). The regular-expression
  library is a parameter of the planner.
\<close>

type_synonym regex_lib = "string \<Rightarrow> (string \<Rightarrow> bool) option"

subsection \<open>Planner state\<close>

record planner =
  actions :: "action list"
  planned_entity_area :: "string set"
  planned_entity_remove :: "string set"
  planned_entity_hide :: "string set"
  needs_fallback_onbekend :: bool

record fetched =
  f_areas :: "area list"
  f_devices :: "device list"
  f_entities :: "entity list"
  states_by_entity_id :: "string \<rightharpoonup> live_state"

text \<open>
  \<^verbatim>\<open>actions.append(Action(id=str(uuid.uuid4()), ...))\<close>: the identifiers come from a supply
  \<open>fresh\<close>; the \<open>k\<close>-th action created in a run gets \<open>fresh k\<close>.
\<close>

definition emit ::
  "(nat \<Rightarrow> string) \<Rightarrow> string \<Rightarrow> payload \<Rightarrow> string \<Rightarrow> rat \<Rightarrow> bool \<Rightarrow> planner \<Rightarrow> planner" where
  "emit fresh atype payload reason conf req s =
     s\<lparr>actions := actions s @
          [\<lparr>a_id = fresh (length (actions s)), a_type = atype, a_payload = payload,
            a_reason = reason, a_confidence = conf, a_requires_approval = req\<rparr>]\<rparr>"

definition entity_ids_of :: "entity list \<Rightarrow> string list" where
  "entity_ids_of entities =
     map (\<lambda>e. str_or_empty (e_entity_id e)) (filter (\<lambda>e. truthy (e_entity_id e)) entities)"

definition area_tokens_of :: "area list \<Rightarrow> (string \<times> string \<times> string set) list" where
  "area_tokens_of areas =
     map (\<lambda>a. (str_or_empty (ar_area_id a), str_or_empty (ar_name a),
                tokenize (str_or_empty (ar_name a))))
       (filter (\<lambda>a. truthy (ar_area_id a) \<and> truthy (ar_name a)) areas)"

definition area_names_of :: "area list \<Rightarrow> string set" where
  "area_names_of areas = set (map (\<lambda>(i, n, t). n) (area_tokens_of areas))"

definition area_name_by_id_of :: "area list \<Rightarrow> (string \<times> string) list" where
  "area_name_by_id_of areas = map (\<lambda>(i, n, t). (i, n)) (area_tokens_of areas)"

definition areas_named_ci :: "area list \<Rightarrow> string \<Rightarrow> area list" where
  \<comment> \<open>\<^verbatim>\<open>area_by_name_ci.get(key, [])\<close>\<close>
  "areas_named_ci areas k =
     filter (\<lambda>a. truthy (ar_name a) \<and> lower (strip (str_or_empty (ar_name a))) = k) areas"

definition area_id_by_name_lower :: "area list \<Rightarrow> string \<rightharpoonup> string" where
  "area_id_by_name_lower areas =
     dict_of (map (\<lambda>a. (lower (strip (str_or_empty (ar_name a))), str_or_empty (ar_area_id a)))
                (filter (\<lambda>a. truthy (ar_name a) \<and> truthy (ar_area_id a)) areas))"

definition active :: "fetched \<Rightarrow> string \<Rightarrow> bool" where
  "active d entity_id = is_active_state (states_by_entity_id d entity_id)"

definition device_map :: "fetched \<Rightarrow> string \<rightharpoonup> device" where
  "device_map d = by_key d_id (f_devices d)"

definition device_area_of :: "fetched \<Rightarrow> entity \<Rightarrow> string option" where
  \<comment> \<open>\<^verbatim>\<open>device_by_id.get(device_id, {}).get("area_id")\<close>\<close>
  "device_area_of d er = before_of d_area_id (device_map d (str_or_empty (e_device_id er)))"

subsection \<open>The passes, in the order of the code\<close>

definition rename_area_step :: "(nat \<Rightarrow> string) \<Rightarrow> fetched \<Rightarrow> rename_rule \<Rightarrow> planner \<Rightarrow> planner" where
  "rename_area_step fresh d r s =
     (let src = strip (str_or_empty (rn_from r)); dst = strip (str_or_empty (rn_to r)) in
      if src = [] \<or> dst = [] \<or> src = dst then s
      else
        (let req = flag True (rn_requires_approval r);
             src_areas = areas_named_ci (f_areas d) (lower src);
             dst_areas = areas_named_ci (f_areas d) (lower dst)
         in if length src_areas \<noteq> 1 then s
            else if length dst_areas \<noteq> 0 then s
            else
              (let area_id = ar_area_id (hd src_areas) in
               if \<not> truthy area_id then s
               else emit fresh ''rename_area'' [(''area_id'', area_id), (''name'', Some dst)]
                      (''Rule: rename area '' @ quoted src @ '' -> '' @ quoted dst @ ''.'')
                      0.9 req s)))"

definition remove_id_step :: "(nat \<Rightarrow> string) \<Rightarrow> fetched \<Rightarrow> string \<Rightarrow> planner \<Rightarrow> planner" where
  "remove_id_step fresh d eid s =
     (if eid \<in> set (entity_ids_of (f_entities d)) \<and> eid \<notin> planned_entity_remove s then
        (emit fresh ''remove_entity_registry_entry'' [(''entity_id'', Some eid)]
           ''Rule: explicit entity removal.'' 1.0 True s)
        \<lparr>planned_entity_remove := insert eid (planned_entity_remove s)\<rparr>
      else s)"

definition remove_match_step ::
  "(nat \<Rightarrow> string) \<Rightarrow> (string \<Rightarrow> bool) \<Rightarrow> string \<Rightarrow> bool \<Rightarrow> string \<Rightarrow> planner \<Rightarrow> planner" where
  "remove_match_step fresh rx pat req eid s =
     (if eid \<in> planned_entity_remove s then s
      else if rx eid then
        (emit fresh ''remove_entity_registry_entry'' [(''entity_id'', Some eid)]
           (''Rule: entity_id matches /'' @ pat @ ''/.'') 0.95 req s)
        \<lparr>planned_entity_remove := insert eid (planned_entity_remove s)\<rparr>
      else s)"

definition remove_regex_step ::
  "(nat \<Rightarrow> string) \<Rightarrow> regex_lib \<Rightarrow> fetched \<Rightarrow> regex_rule \<Rightarrow> planner \<Rightarrow> planner" where
  "remove_regex_step fresh compile_regex d rr s =
     (let pat = str_or_empty (rx_pattern rr) in
      case compile_regex pat of
        None \<Rightarrow> s
      | Some rx \<Rightarrow>
          fold (remove_match_step fresh rx pat (flag True (rx_requires_approval rr)))
            (sort (remdups (entity_ids_of (f_entities d)))) s)"

definition hide_id_step :: "(nat \<Rightarrow> string) \<Rightarrow> fetched \<Rightarrow> string \<Rightarrow> planner \<Rightarrow> planner" where
  "hide_id_step fresh d eid s =
     (if eid \<in> set (entity_ids_of (f_entities d)) \<and> eid \<notin> planned_entity_hide s then
        (emit fresh ''hide_entity'' [(''entity_id'', Some eid), (''hidden_by'', Some ''user'')]
           ''Rule: explicit entity hide.'' 1.0 True s)
        \<lparr>planned_entity_hide := insert eid (planned_entity_hide s)\<rparr>
      else s)"

definition hide_match_step ::
  "(nat \<Rightarrow> string) \<Rightarrow> (string \<Rightarrow> bool) \<Rightarrow> string \<Rightarrow> bool \<Rightarrow> string \<Rightarrow> planner \<Rightarrow> planner" where
  "hide_match_step fresh rx pat req eid s =
     (if eid \<in> planned_entity_hide s then s
      else if rx eid then
        (emit fresh ''hide_entity'' [(''entity_id'', Some eid), (''hidden_by'', Some ''user'')]
           (''Rule: entity_id matches /'' @ pat @ ''/.'') 0.95 req s)
        \<lparr>planned_entity_hide := insert eid (planned_entity_hide s)\<rparr>
      else s)"

definition hide_regex_step ::
  "(nat \<Rightarrow> string) \<Rightarrow> regex_lib \<Rightarrow> fetched \<Rightarrow> regex_rule \<Rightarrow> planner \<Rightarrow> planner" where
  "hide_regex_step fresh compile_regex d rr s =
     (let pat = str_or_empty (rx_pattern rr) in
      case compile_regex pat of
        None \<Rightarrow> s
      | Some rx \<Rightarrow>
          fold (hide_match_step fresh rx pat (flag True (rx_requires_approval rr)))
            (sort (remdups (entity_ids_of (f_entities d)))) s)"

definition inherit_step :: "(nat \<Rightarrow> string) \<Rightarrow> fetched \<Rightarrow> entity \<Rightarrow> planner \<Rightarrow> planner" where
  "inherit_step fresh d er s =
     (let entity_id = str_or_empty (e_entity_id er) in
      if \<not> truthy (e_entity_id er) then s
      else if entity_id \<in> planned_entity_remove s then s
      else if \<not> active d entity_id then s
      else if truthy (e_area_id er) then s
      else if \<not> truthy (e_device_id er) then s
      else if \<not> truthy (device_area_of d er) then s
      else
        (emit fresh ''set_entity_area''
           [(''entity_id'', Some entity_id), (''area_id'', device_area_of d er)]
           ''Entity has no area_id; device has area_id, so entity can inherit deterministically.''
           1.0 False s)
        \<lparr>planned_entity_area := insert entity_id (planned_entity_area s)\<rparr>)"

definition linked_explicit_areas :: "fetched \<Rightarrow> string \<Rightarrow> string list" where
  \<comment> \<open>the set \<^verbatim>\<open>effective_area_ids\<close> of the device pass, as a duplicate-free list\<close>
  "linked_explicit_areas d device_id =
     remdups (map (\<lambda>er. str_or_empty (e_area_id er))
       (filter (\<lambda>er. e_device_id er = Some device_id \<and> truthy (e_entity_id er)
                     \<and> active d (str_or_empty (e_entity_id er)) \<and> truthy (e_area_id er))
          (f_entities d)))"

definition device_backfill_step :: "(nat \<Rightarrow> string) \<Rightarrow> fetched \<Rightarrow> device \<Rightarrow> planner \<Rightarrow> planner" where
  "device_backfill_step fresh d dv s =
     (if \<not> truthy (d_id dv) \<or> truthy (d_area_id dv) then s
      else
        (let device_id = str_or_empty (d_id dv);
             effective_area_ids = linked_explicit_areas d device_id
         in if length effective_area_ids = 1 then
              emit fresh ''set_device_area''
                [(''device_id'', Some device_id), (''area_id'', Some (hd effective_area_ids))]
                ''Device has no area_id; all linked active entities have exactly 1 explicit area_id.''
                0.98 False s
            else s))"

definition join_spaces :: "string list \<Rightarrow> string" where
  \<comment> \<open>\<^verbatim>\<open>" ".join(parts)\<close>\<close>
  "join_spaces parts = (case parts of [] \<Rightarrow> [] | p # ps \<Rightarrow> p @ concat (map (\<lambda>q. '' '' @ q) ps))"

definition haystack :: "fetched \<Rightarrow> entity \<Rightarrow> string" where
  "haystack d er =
     join_spaces
       [str_or_empty (e_entity_id er), str_or_empty (e_name er), str_or_empty (e_original_name er),
        str_or_empty (before_of s_friendly_name (states_by_entity_id d (str_or_empty (e_entity_id er))))]"

definition area_matches :: "(string \<times> string \<times> string set) list \<Rightarrow> string set \<Rightarrow> (string \<times> string) list" where
  "area_matches area_tokens ht =
     map (\<lambda>(area_id, area_name, toks). (area_id, area_name))
       (filter (\<lambda>(area_id, area_name, toks). toks \<noteq> {} \<and> toks \<subseteq> ht) area_tokens)"

definition token_match_step ::
  "(nat \<Rightarrow> string) \<Rightarrow> bool \<Rightarrow> fetched \<Rightarrow> entity \<Rightarrow> planner \<Rightarrow> planner" where
  "token_match_step fresh include_onbekend_fallback d er s =
     (let entity_id = str_or_empty (e_entity_id er) in
      if \<not> truthy (e_entity_id er) then s
      else if entity_id \<in> planned_entity_area s then s
      else if entity_id \<in> planned_entity_remove s then s
      else if \<not> active d entity_id then s
      else if truthy (e_area_id er) then s
      else if truthy (e_device_id er) \<and> truthy (device_area_of d er) then s
      else
        (let matches = area_matches (area_tokens_of (f_areas d)) (tokenize (haystack d er)) in
         if length matches = 1 then
           (emit fresh ''set_entity_area''
              [(''entity_id'', Some entity_id), (''area_id'', Some (fst (hd matches)))]
              (''Token match to area name '' @ quoted (snd (hd matches)) @ '' from entity metadata.'')
              0.95 False s)
           \<lparr>planned_entity_area := insert entity_id (planned_entity_area s)\<rparr>
         else if include_onbekend_fallback then s\<lparr>needs_fallback_onbekend := True\<rparr>
         else s))"

definition create_fallback_area :: "(nat \<Rightarrow> string) \<Rightarrow> string \<Rightarrow> bool \<Rightarrow> fetched \<Rightarrow> planner \<Rightarrow> planner" where
  "create_fallback_area fresh onbekend_area_name include_onbekend_fallback d s =
     (if include_onbekend_fallback \<and> needs_fallback_onbekend s
         \<and> onbekend_area_name \<notin> area_names_of (f_areas d)
      then emit fresh ''create_area'' [(''name'', Some onbekend_area_name)]
             ''Fallback area requested to ensure everything has an effective area.'' 0.6 True s
      else s)"

definition find_onbekend_area_id :: "string \<Rightarrow> area list \<Rightarrow> string option" where
  \<comment> \<open>the loop with \<^verbatim>\<open>break\<close>: the identifier of the first area of that name\<close>
  "find_onbekend_area_id onbekend_area_name areas =
     (case filter (\<lambda>a. ar_name a = Some onbekend_area_name) areas of
        [] \<Rightarrow> None
      | a # _ \<Rightarrow> ar_area_id a)"

definition fallback_step ::
  "(nat \<Rightarrow> string) \<Rightarrow> string \<Rightarrow> string \<Rightarrow> fetched \<Rightarrow> entity \<Rightarrow> planner \<Rightarrow> planner" where
  "fallback_step fresh onbekend_area_name onbekend_area_id d er s =
     (let entity_id = str_or_empty (e_entity_id er) in
      if \<not> truthy (e_entity_id er) then s
      else if entity_id \<in> planned_entity_area s then s
      else if entity_id \<in> planned_entity_remove s then s
      else if \<not> active d entity_id then s
      else if truthy (effective_area_id er (device_map d)) then s
      else
        (emit fresh ''set_entity_area''
           [(''entity_id'', Some entity_id), (''area_id'', Some onbekend_area_id)]
           (''Fallback: put entity into area '' @ quoted onbekend_area_name @ ''.'') 0.6 True s)
        \<lparr>planned_entity_area := insert entity_id (planned_entity_area s)\<rparr>)"

definition fallback_placement ::
  "(nat \<Rightarrow> string) \<Rightarrow> string \<Rightarrow> bool \<Rightarrow> fetched \<Rightarrow> planner \<Rightarrow> planner" where
  "fallback_placement fresh onbekend_area_name include_onbekend_fallback d s =
     (if include_onbekend_fallback then
        (let onbekend_area_id = find_onbekend_area_id onbekend_area_name (f_areas d) in
         if truthy onbekend_area_id then
           fold (fallback_step fresh onbekend_area_name (str_or_empty onbekend_area_id) d)
             (f_entities d) s
         else s)
      else s)"

definition suffix_duplicate_step :: "(nat \<Rightarrow> string) \<Rightarrow> fetched \<Rightarrow> entity \<Rightarrow> planner \<Rightarrow> planner" where
  "suffix_duplicate_step fresh d er s =
     (let entity_id = str_or_empty (e_entity_id er) in
      if \<not> truthy (e_entity_id er) then s
      else if entity_id \<in> planned_entity_remove s then s
      else
        (case is_suffix_duplicate_entity entity_id of
           (is_dup, base) \<Rightarrow>
             if \<not> is_dup \<or> base \<notin> set (entity_ids_of (f_entities d)) then s
             else
               (emit fresh ''remove_entity_registry_entry'' [(''entity_id'', Some entity_id)]
                  (''Entity id looks like a suffix duplicate of '' @ quoted base @ ''.'') 0.9 True s)
               \<lparr>planned_entity_remove := insert entity_id (planned_entity_remove s)\<rparr>))"

definition unique_id_groups :: "entity list \<Rightarrow> (string \<times> string list) list" where
  \<comment> \<open>\<^verbatim>\<open>by_unique_id.items()\<close>, in the order the keys were first inserted\<close>
  "unique_id_groups entities =
     (let es = filter (\<lambda>e. truthy (e_unique_id e) \<and> truthy (e_entity_id e)) entities
      in map (\<lambda>uid. (uid, map (\<lambda>e. str_or_empty (e_entity_id e))
                              (filter (\<lambda>e. str_or_empty (e_unique_id e) = uid) es)))
           (first_occurrences (map (\<lambda>e. str_or_empty (e_unique_id e)) es)))"

definition unique_hide_step ::
  "(nat \<Rightarrow> string) \<Rightarrow> string \<Rightarrow> string \<Rightarrow> string \<Rightarrow> planner \<Rightarrow> planner" where
  "unique_hide_step fresh uid kept eid s =
     (if eid \<in> planned_entity_hide s \<or> eid \<in> planned_entity_remove s then s
      else
        (emit fresh ''hide_entity'' [(''entity_id'', Some eid), (''hidden_by'', Some ''user'')]
           (''Duplicate unique_id '' @ quoted uid @ ''. Keeping '' @ quoted kept @ '', hiding ''
              @ quoted eid @ ''.'') 0.9 True s)
        \<lparr>planned_entity_hide := insert eid (planned_entity_hide s)\<rparr>)"

definition unique_group_step :: "(nat \<Rightarrow> string) \<Rightarrow> string \<times> string list \<Rightarrow> planner \<Rightarrow> planner" where
  "unique_group_step fresh g s =
     (case g of (uid, eids) \<Rightarrow>
        if length eids \<le> 1 then s
        else fold (unique_hide_step fresh uid (hd (sort eids))) (tl (sort eids)) s)"

definition entity_area_match_step ::
  "(nat \<Rightarrow> string) \<Rightarrow> fetched \<Rightarrow> (string \<Rightarrow> bool) \<Rightarrow> string \<Rightarrow> string \<Rightarrow> bool \<Rightarrow> bool \<Rightarrow> string
     \<Rightarrow> entity \<Rightarrow> planner \<Rightarrow> planner" where
  "entity_area_match_step fresh d rx pat area_name req overwrite target_area_id er s =
     (let entity_id = str_or_empty (e_entity_id er) in
      if entity_id = [] \<or> entity_id \<in> planned_entity_remove s then s
      else if \<not> active d entity_id then s
      else if \<not> overwrite \<and> (truthy (effective_area_id er (device_map d))
                              \<or> entity_id \<in> planned_entity_area s) then s
      else if rx entity_id then
        (emit fresh ''set_entity_area''
           [(''entity_id'', Some entity_id), (''area_id'', Some target_area_id)]
           (''Rule: entity_id matches /'' @ pat @ ''/ -> area '' @ quoted area_name @ ''.'')
           0.9 req s)
        \<lparr>planned_entity_area := insert entity_id (planned_entity_area s)\<rparr>
      else s)"

definition entity_area_rule_step ::
  "(nat \<Rightarrow> string) \<Rightarrow> regex_lib \<Rightarrow> fetched \<Rightarrow> area_rule \<Rightarrow> planner \<Rightarrow> planner" where
  "entity_area_rule_step fresh compile_regex d rr s =
     (let pat = str_or_empty (au_pattern rr); area_name = strip (str_or_empty (au_area rr)) in
      if pat = [] \<or> area_name = [] then s
      else
        (case compile_regex pat of
           None \<Rightarrow> s
         | Some rx \<Rightarrow>
             (case area_id_by_name_lower (f_areas d) (lower area_name) of
                None \<Rightarrow> s
              | Some target_area_id \<Rightarrow>
                  if target_area_id = [] then s
                  else fold (entity_area_match_step fresh d rx pat area_name
                               (flag True (au_requires_approval rr)) (flag False (au_overwrite rr))
                               target_area_id)
                         (f_entities d) s)))"

definition device_area_match_step ::
  "(nat \<Rightarrow> string) \<Rightarrow> (string \<Rightarrow> bool) \<Rightarrow> string \<Rightarrow> string \<Rightarrow> bool \<Rightarrow> bool \<Rightarrow> string
     \<Rightarrow> device \<Rightarrow> planner \<Rightarrow> planner" where
  "device_area_match_step fresh rx pat area_name req overwrite target_area_id dv s =
     (if \<not> truthy (d_id dv) then s
      else if truthy (d_area_id dv) \<and> \<not> overwrite then s
      else
        (let name = str_or_empty (py_or (py_or (d_name_by_user dv) (d_name dv)) (Some [])) in
         if name = [] then s
         else if rx name then
           emit fresh ''set_device_area''
             [(''device_id'', d_id dv), (''area_id'', Some target_area_id)]
             (''Rule: device name matches /'' @ pat @ ''/ -> area '' @ quoted area_name @ ''.'')
             0.9 req s
         else s))"

definition device_area_rule_step ::
  "(nat \<Rightarrow> string) \<Rightarrow> regex_lib \<Rightarrow> fetched \<Rightarrow> area_rule \<Rightarrow> planner \<Rightarrow> planner" where
  "device_area_rule_step fresh compile_regex d rr s =
     (let pat = str_or_empty (au_pattern rr); area_name = strip (str_or_empty (au_area rr)) in
      if pat = [] \<or> area_name = [] then s
      else
        (case compile_regex pat of
           None \<Rightarrow> s
         | Some rx \<Rightarrow>
             (case area_id_by_name_lower (f_areas d) (lower area_name) of
                None \<Rightarrow> s
              | Some target_area_id \<Rightarrow>
                  if target_area_id = [] then s
                  else fold (device_area_match_step fresh rx pat area_name
                               (flag True (au_requires_approval rr)) (flag False (au_overwrite rr))
                               target_area_id)
                         (f_devices d) s)))"

definition helper_keywords :: "helper_rule \<Rightarrow> string set" where
  "helper_keywords hr = set (map (\<lambda>x. lower (strip x)) (filter (\<lambda>x. strip x \<noteq> []) (hr_keywords hr)))"

definition helper_rule_target :: "fetched \<Rightarrow> string set \<Rightarrow> helper_rule \<Rightarrow> string option" where
  \<comment> \<open>the target area of a rule that fires on these tokens; \<open>None\<close> where the loop continues\<close>
  "helper_rule_target d tokens hr =
     (let area_name = strip (str_or_empty (hr_area hr)); kws = helper_keywords hr in
      if area_name = [] \<or> kws = {} then None
      else if kws \<inter> tokens = {} then None
      else
        (case area_id_by_name_lower (f_areas d) (lower (strip area_name)) of
           None \<Rightarrow> None
         | Some target_area_id \<Rightarrow> if target_area_id = [] then None else Some target_area_id))"

definition helper_step :: "(nat \<Rightarrow> string) \<Rightarrow> fetched \<Rightarrow> helper_rule list \<Rightarrow> entity \<Rightarrow> planner \<Rightarrow> planner" where
  "helper_step fresh d hrules er s =
     (let entity_id = str_or_empty (e_entity_id er) in
      if \<not> active d entity_id then s
      else if entity_id = [] then s
      else if entity_id \<in> planned_entity_area s then s
      else if truthy (effective_area_id er (device_map d)) then s
      else
        (let tokens = tokenize (entity_id @ '' '' @ str_or_empty (e_original_name er) @ '' ''
                                 @ str_or_empty (e_name er))
         in case find (\<lambda>hr. helper_rule_target d tokens hr \<noteq> None) hrules of
              None \<Rightarrow> s
            | Some hr \<Rightarrow>
                emit fresh ''set_entity_area''
                  [(''entity_id'', Some entity_id), (''area_id'', helper_rule_target d tokens hr)]
                  (''Rule: keyword match suggests area '' @ quoted (strip (str_or_empty (hr_area hr)))
                     @ ''.'')
                  0.85 (flag True (hr_requires_approval hr)) s))"

definition media_candidate :: "fetched \<Rightarrow> entity \<Rightarrow> (string \<times> string \<times> string \<times> string) option" where
  "media_candidate d er =
     (let entity_id = str_or_empty (e_entity_id er) in
      if \<not> truthy (e_entity_id er) \<or> \<not> startswith entity_id ''media_player.'' then None
      else if \<not> active d entity_id then None
      else
        (let eff_area_id = effective_area_id er (device_map d) in
         if \<not> truthy eff_area_id then None
         else
           (let current = str_or_empty
                  (py_or (py_or (e_name er) (e_original_name er))
                     (Some (str_or_empty (before_of s_friendly_name (states_by_entity_id d entity_id)))))
            in if \<not> looks_generic_media_name current then None
               else Some (str_or_empty eff_area_id, media_base_label entity_id current,
                          entity_id, current))))"

definition media_groups ::
  "(string \<times> string \<times> string \<times> string) list \<Rightarrow> ((string \<times> string) \<times> (string \<times> string) list) list" where
  \<comment> \<open>\<^verbatim>\<open>grouped.items()\<close>\<close>
  "media_groups cands =
     map (\<lambda>k. (k, map (\<lambda>(a, b, e, c). (e, c)) (filter (\<lambda>(a, b, e, c). (a, b) = k) cands)))
       (first_occurrences (map (\<lambda>(a, b, e, c). (a, b)) cands))"

definition media_rename_step ::
  "(nat \<Rightarrow> string) \<Rightarrow> string \<Rightarrow> string \<Rightarrow> bool \<Rightarrow> nat \<times> string \<times> string \<Rightarrow> planner \<Rightarrow> planner" where
  "media_rename_step fresh base area_name need_numbers item s =
     (case item of (idx, entity_id, current) \<Rightarrow>
        (let new_name = base @ '' '' @ area_name @ (if need_numbers then '' '' @ decimal idx else [])
         in emit fresh ''rename_entity'' [(''entity_id'', Some entity_id), (''name'', Some new_name)]
              (''Generic media player name '' @ quoted current @ '' -> '' @ quoted new_name
                 @ '' based on effective area.'') 0.8 True s))"

definition media_group_step ::
  "(nat \<Rightarrow> string) \<Rightarrow> fetched \<Rightarrow> (string \<times> string) \<times> (string \<times> string) list \<Rightarrow> planner \<Rightarrow> planner" where
  "media_group_step fresh d g s =
     (case g of ((area_id, base), items) \<Rightarrow>
        (let items_sorted = sort_key fst items;
             area_name = (case dict_of (area_name_by_id_of (f_areas d)) area_id of
                            None \<Rightarrow> area_id
                          | Some n \<Rightarrow> if n = [] then area_id else n)
         in fold (media_rename_step fresh base area_name (length items_sorted > 1))
              (zip [1 ..< Suc (length items_sorted)] items_sorted) s))"

subsection \<open>The whole pass sequence\<close>

record engine_config =
  onbekend_area_name :: string
  fresh_ids :: "nat \<Rightarrow> string"
  compile_regex :: regex_lib

definition initial_planner :: planner where
  "initial_planner = \<lparr>actions = [], planned_entity_area = {}, planned_entity_remove = {},
     planned_entity_hide = {}, needs_fallback_onbekend = False\<rparr>"

definition explicit_passes :: "engine_config \<Rightarrow> rules \<Rightarrow> fetched \<Rightarrow> planner \<Rightarrow> planner" where
  "explicit_passes cfg r d s =
     (let fresh = fresh_ids cfg; rx = compile_regex cfg;
          s1 = fold (rename_area_step fresh d) (area_renames r) s;
          s2 = fold (remove_id_step fresh d) (entity_remove_ids r) s1;
          s3 = fold (remove_regex_step fresh rx d) (entity_remove_regex r) s2;
          s4 = fold (hide_id_step fresh d) (entity_hide_ids r) s3
      in fold (hide_regex_step fresh rx d) (entity_hide_regex r) s4)"

definition area_passes :: "engine_config \<Rightarrow> bool \<Rightarrow> fetched \<Rightarrow> planner \<Rightarrow> planner" where
  "area_passes cfg include_onbekend_fallback d s =
     (let fresh = fresh_ids cfg;
          s1 = fold (inherit_step fresh d) (f_entities d) s;
          s2 = fold (device_backfill_step fresh d) (f_devices d) s1;
          s3 = fold (token_match_step fresh include_onbekend_fallback d) (f_entities d)
                 (s2\<lparr>needs_fallback_onbekend := False\<rparr>)
      in create_fallback_area fresh (onbekend_area_name cfg) include_onbekend_fallback d s3)"

definition duplicate_passes :: "engine_config \<Rightarrow> fetched \<Rightarrow> planner \<Rightarrow> planner" where
  "duplicate_passes cfg d s =
     (let fresh = fresh_ids cfg;
          s1 = fold (suffix_duplicate_step fresh d) (f_entities d) s
      in fold (unique_group_step fresh) (unique_id_groups (f_entities d)) s1)"

definition rule_passes :: "engine_config \<Rightarrow> rules \<Rightarrow> fetched \<Rightarrow> planner \<Rightarrow> planner" where
  "rule_passes cfg r d s =
     (let fresh = fresh_ids cfg; rx = compile_regex cfg;
          s1 = fold (entity_area_rule_step fresh rx d) (entity_area r) s;
          s2 = fold (device_area_rule_step fresh rx d) (device_area r) s1
      in fold (helper_step fresh d (helper_area_rules r)) (f_entities d) s2)"

definition media_pass :: "engine_config \<Rightarrow> fetched \<Rightarrow> planner \<Rightarrow> planner" where
  "media_pass cfg d s =
     fold (media_group_step (fresh_ids cfg) d)
       (media_groups (List.map_filter (media_candidate d) (f_entities d))) s"

definition run_passes :: "engine_config \<Rightarrow> bool \<Rightarrow> rules \<Rightarrow> fetched \<Rightarrow> planner" where
  "run_passes cfg include_onbekend_fallback r d =
     media_pass cfg d
       (rule_passes cfg r d
          (duplicate_passes cfg d
             (fallback_placement (fresh_ids cfg) (onbekend_area_name cfg) include_onbekend_fallback d
                (area_passes cfg include_onbekend_fallback d
                   (explicit_passes cfg r d initial_planner)))))"

definition fetch :: "'h client \<Rightarrow> 'h world \<Rightarrow> (string + fetched) \<times> 'h world" where
  "fetch ha w =
     (case send ha Area_list w of
        (Inl err, w1) \<Rightarrow> (Inl err, w1)
      | (Inr (Areas areas), w1) \<Rightarrow>
          (case send ha Device_list w1 of
             (Inl err, w2) \<Rightarrow> (Inl err, w2)
           | (Inr (Devices devices), w2) \<Rightarrow>
               (case send ha Entity_list w2 of
                  (Inl err, w3) \<Rightarrow> (Inl err, w3)
                | (Inr (Entities entities), w3) \<Rightarrow>
                    (case send ha Get_states w3 of
                       (Inl err, w4) \<Rightarrow> (Inl err, w4)
                     | (Inr (States states), w4) \<Rightarrow>
                         (Inr \<lparr>f_areas = areas, f_devices = devices, f_entities = entities,
                               states_by_entity_id = by_key s_entity_id states\<rparr>, w4)
                     | (Inr _, w4) \<Rightarrow> (Inl ''TypeError'', w4))
                | (Inr _, w3) \<Rightarrow> (Inl ''TypeError'', w3))
           | (Inr _, w2) \<Rightarrow> (Inl ''TypeError'', w2))
      | (Inr _, w1) \<Rightarrow> (Inl ''TypeError'', w1))"

definition plan_of ::
  "engine_config \<Rightarrow> string \<Rightarrow> rules \<Rightarrow> string option \<times> string option \<Rightarrow> bool \<Rightarrow> string list
     \<Rightarrow> fetched \<Rightarrow> plan_doc" where
  "plan_of cfg now r rules_meta include_onbekend_fallback ignored d =
     (let all_actions = actions (run_passes cfg include_onbekend_fallback r d);
          visible = visible_actions ignored all_actions
      in \<lparr>p_created_at = now, p_rules = rules_meta, p_actions = visible,
          p_area_name_by_id = area_name_by_id_of (f_areas d),
          p_ignored_count = length all_actions - length visible\<rparr>)"

definition plan ::
  "'h client \<Rightarrow> engine_config \<Rightarrow> string \<Rightarrow> rules \<Rightarrow> string option \<times> string option \<Rightarrow> bool
     \<Rightarrow> files \<Rightarrow> 'h world \<Rightarrow> (string + plan_doc) \<times> files \<times> 'h world" where
  "plan ha cfg now r rules_meta include_onbekend_fallback fs w =
     (case fetch ha w of
        (Inl err, w') \<Rightarrow> (Inl err, fs, w')
      | (Inr d, w') \<Rightarrow>
          (let p = plan_of cfg now r rules_meta include_onbekend_fallback (load_ignored fs) d
           in (Inr p, fs\<lparr>plan_json := Some p\<rparr>, w')))"

subsection \<open>The ignore store\<close>

definition save_ignored :: "string list \<Rightarrow> files \<Rightarrow> files" where
  "save_ignored fingerprints fs = fs\<lparr>ignored_json := Some (sort (remdups fingerprints))\<rparr>"

definition add_ignored :: "string list \<Rightarrow> files \<Rightarrow> string list \<times> files" where
  "add_ignored fingerprints fs =
     (let result = sort (remdups (load_ignored fs @ fingerprints))
      in (result, save_ignored result fs))"

definition remove_ignored :: "string list \<Rightarrow> files \<Rightarrow> string list \<times> files" where
  "remove_ignored fingerprints fs =
     (let result = sort (remdups (filter (\<lambda>f. f \<notin> set fingerprints) (load_ignored fs)))
      in (result, save_ignored result fs))"

definition clear_ignored :: "files \<Rightarrow> files" where
  "clear_ignored fs = save_ignored [] fs"

section \<open>Reference semantics used to state the properties\<close>

text \<open>The replies a client gives to a list of calls issued one after the other.\<close>

fun run_calls :: "'h client \<Rightarrow> call list \<Rightarrow> 'h \<Rightarrow> (string + reply) list \<times> 'h" where
  "run_calls ha [] h = ([], h)"
| "run_calls ha (c # cs) h =
     (case ha c h of (r, h') \<Rightarrow> (case run_calls ha cs h' of (rs, h'') \<Rightarrow> (r # rs, h'')))"

definition failures :: "('a \<times> (string + reply)) list \<Rightarrow> ('a \<times> string) list" where
  "failures xs = List.map_filter (\<lambda>(x, r). case r of Inl err \<Rightarrow> Some (x, err) | Inr _ \<Rightarrow> None) xs"

text \<open>
  An in-memory registry behind the client, the idealisation of the external registry
  against which restoring is stated: an update sets exactly the named fields of the object
  with that identifier and is rejected when there is no such object or a field is unknown;
  a removal deletes the entry; a creation appends an area.
\<close>

record registry =
  reg_areas :: "area list"
  reg_devices :: "device list"
  reg_entities :: "entity list"
  reg_states :: "live_state list"

definition set_entity_field :: "string \<times> string option \<Rightarrow> entity \<Rightarrow> entity" where
  "set_entity_field kv e =
     (case kv of (k, v) \<Rightarrow>
        if k = ''area_id'' then e\<lparr>e_area_id := v\<rparr>
        else if k = ''name'' then e\<lparr>e_name := v\<rparr>
        else if k = ''hidden_by'' then e\<lparr>e_hidden_by := v\<rparr>
        else if k = ''disabled_by'' then e\<lparr>e_disabled_by := v\<rparr>
        else e)"

definition set_device_field :: "string \<times> string option \<Rightarrow> device \<Rightarrow> device" where
  "set_device_field kv dv =
     (case kv of (k, v) \<Rightarrow>
        if k = ''area_id'' then dv\<lparr>d_area_id := v\<rparr>
        else if k = ''name_by_user'' then dv\<lparr>d_name_by_user := v\<rparr>
        else dv)"

definition entity_fields :: "string list" where
  "entity_fields = [''area_id'', ''name'', ''hidden_by'', ''disabled_by'']"

definition device_fields :: "string list" where
  "device_fields = [''area_id'', ''name_by_user'']"

definition registry_client :: "registry client" where
  "registry_client c r =
     (case c of
        Area_list \<Rightarrow> (Inr (Areas (reg_areas r)), r)
      | Device_list \<Rightarrow> (Inr (Devices (reg_devices r)), r)
      | Entity_list \<Rightarrow> (Inr (Entities (reg_entities r)), r)
      | Get_states \<Rightarrow> (Inr (States (reg_states r)), r)
      | Area_create name \<Rightarrow>
          (let area_id = ''area_'' @ decimal (length (reg_areas r)) in
           (Inr (Result [(''area_id'', Some area_id), (''name'', Some name)]),
            r\<lparr>reg_areas := reg_areas r @ [\<lparr>ar_area_id = Some area_id, ar_name = Some name\<rparr>]\<rparr>))
      | Area_update area_id kw \<Rightarrow>
          (if Some area_id \<in> ar_area_id ` set (reg_areas r) \<and> map fst kw = [''name''] then
             (Inr (Result kw),
              r\<lparr>reg_areas := map (\<lambda>a. if ar_area_id a = Some area_id
                                       then a\<lparr>ar_name := snd (hd kw)\<rparr> else a) (reg_areas r)\<rparr>)
           else (Inl ''HA error not_found: ?'', r))
      | Entity_update entity_id kw \<Rightarrow>
          (if Some entity_id \<in> e_entity_id ` set (reg_entities r)
              \<and> set (map fst kw) \<subseteq> set entity_fields then
             (Inr (Result kw),
              r\<lparr>reg_entities := map (\<lambda>e. if e_entity_id e = Some entity_id
                                          then fold set_entity_field kw e else e) (reg_entities r)\<rparr>)
           else (Inl ''HA error not_found: ?'', r))
      | Entity_remove entity_id \<Rightarrow>
          (if Some entity_id \<in> e_entity_id ` set (reg_entities r) then
             (Inr (Result []),
              r\<lparr>reg_entities := filter (\<lambda>e. e_entity_id e \<noteq> Some entity_id) (reg_entities r)\<rparr>)
           else (Inl ''HA error not_found: ?'', r))
      | Device_update device_id kw \<Rightarrow>
          (if Some device_id \<in> d_id ` set (reg_devices r)
              \<and> set (map fst kw) \<subseteq> set device_fields then
             (Inr (Result kw),
              r\<lparr>reg_devices := map (\<lambda>dv. if d_id dv = Some device_id
                                          then fold set_device_field kw dv else dv) (reg_devices r)\<rparr>)
           else (Inl ''HA error not_found: ?'', r)))"

text \<open>
  The rollback executor in the words of the design: an entity or device step re-issues the
  update with exactly the captured map; an area step re-issues it with the captured fields
  that are not null, and issues nothing when there is none; a note and a restore note are
  informational and issue nothing.
\<close>

fun reissued :: "rollback_step \<Rightarrow> call list" where
  "reissued (Entity_step entity_id captured) = [Entity_update entity_id captured]"
| "reissued (Device_step device_id captured) = [Device_update device_id captured]"
| "reissued (Area_step area_id captured) =
     (if \<forall>kv \<in> set captured. snd kv = None then []
      else [Area_update area_id (filter (\<lambda>kv. snd kv \<noteq> None) captured)])"
| "reissued (Note area_id name) = []"
| "reissued (Entity_restore_note entity_id captured) = []"
| "reissued (Other_step stype) = []"

fun is_update_step :: "rollback_step \<Rightarrow> bool" where
  "is_update_step (Entity_step entity_id captured) = True"
| "is_update_step (Device_step device_id captured) = True"
| "is_update_step (Area_step area_id captured) = True"
| "is_update_step (Note area_id name) = False"
| "is_update_step (Entity_restore_note entity_id captured) = False"
| "is_update_step (Other_step stype) = False"

text \<open>
  A step as \<^verbatim>\<open>apply\<close> writes it: the captured map can be passed as keyword arguments
  (it does not name the identifier parameter again, and an area map holds nothing but the
  name).
\<close>

fun well_formed_step :: "rollback_step \<Rightarrow> bool" where
  "well_formed_step (Entity_step entity_id captured) =
     (''entity_id'' \<notin> fst ` set captured \<and> ''self'' \<notin> fst ` set captured)"
| "well_formed_step (Device_step device_id captured) =
     (''device_id'' \<notin> fst ` set captured \<and> ''self'' \<notin> fst ` set captured)"
| "well_formed_step (Area_step area_id captured) =
     (fst ` set (filter (\<lambda>kv. snd kv \<noteq> None) captured) \<subseteq> {''name''})"
| "well_formed_step (Note area_id name) = True"
| "well_formed_step (Entity_restore_note entity_id captured) = True"
| "well_formed_step (Other_step stype) = True"

definition undo_steps :: "rollback_record \<Rightarrow> rollback_step list" where
  \<comment> \<open>the steps that re-issue a call, most recent first\<close>
  "undo_steps rb = filter (\<lambda>st. reissued st \<noteq> []) (rev (rb_steps rb))"

definition undo_calls :: "rollback_record \<Rightarrow> call list" where
  \<comment> \<open>the calls of a rollback, undoing the most recent change first\<close>
  "undo_calls rb = concat (map reissued (rev (rb_steps rb)))"

text \<open>A decimal numeral without leading zero.\<close>

definition canon :: "string \<Rightarrow> bool" where
  "canon d = (d \<noteq> [] \<and> hd d \<in> set ''123456789'' \<and> list_all (\<lambda>x. x \<in> set ascii_digits) d)"

text \<open>
  The suffix-duplicate pattern in the words of the design: the identifier is a base
  identifier followed by an underscore and a decimal integer that is at least 2.
\<close>

definition suffix_duplicate_of :: "string \<Rightarrow> string \<Rightarrow> bool" where
  "suffix_duplicate_of entity_id base =
     (base \<noteq> [] \<and> (\<exists>n. 2 \<le> n \<and> entity_id = base @ ''_'' @ decimal n))"

section \<open>What the passes keep\<close>

definition target :: "action \<Rightarrow> string" where
  \<comment> \<open>the entity an action is about\<close>
  "target a = str_or_empty (py_get (a_payload a) ''entity_id'')"

definition removals :: "action list \<Rightarrow> string list" where
  "removals as = map target (filter (\<lambda>a. a_type a = ''remove_entity_registry_entry'') as)"

definition hides :: "action list \<Rightarrow> string list" where
  "hides as = map target (filter (\<lambda>a. a_type a = ''hide_entity'') as)"

definition placements :: "action list \<Rightarrow> string list" where
  "placements as = map target (filter (\<lambda>a. a_type a = ''set_entity_area'') as)"

definition same_markers :: "planner \<Rightarrow> planner \<Rightarrow> bool" where
  "same_markers s s' =
     (planned_entity_area s' = planned_entity_area s
      \<and> planned_entity_remove s' = planned_entity_remove s
      \<and> planned_entity_hide s' = planned_entity_hide s)"

text \<open>
  One action appended by a pass, with the marker it consulted and the marker it updated.
  The keyword pass is the one that emits with confidence 0.85, the unique-id pass the one
  that hides with confidence 0.9.
\<close>

definition emission :: "planner \<Rightarrow> planner \<Rightarrow> bool" where
  "emission s s' =
     (\<exists>a. actions s' = actions s @ [a] \<and>
        (if a_type a = ''remove_entity_registry_entry'' then
           target a \<notin> planned_entity_remove s
           \<and> planned_entity_remove s' = insert (target a) (planned_entity_remove s)
           \<and> planned_entity_area s' = planned_entity_area s
           \<and> planned_entity_hide s' = planned_entity_hide s
         else if a_type a = ''hide_entity'' then
           target a \<notin> planned_entity_hide s
           \<and> planned_entity_hide s' = insert (target a) (planned_entity_hide s)
           \<and> planned_entity_area s' = planned_entity_area s
           \<and> planned_entity_remove s' = planned_entity_remove s
           \<and> (a_confidence a = 0.9 \<longrightarrow> target a \<notin> planned_entity_remove s)
         else if a_type a = ''set_entity_area'' then
           planned_entity_remove s' = planned_entity_remove s
           \<and> planned_entity_hide s' = planned_entity_hide s
           \<and> (if a_confidence a = 0.85
                then planned_entity_area s' = planned_entity_area s
                     \<and> target a \<notin> planned_entity_area s
                else planned_entity_area s' = insert (target a) (planned_entity_area s)
                     \<and> target a \<notin> planned_entity_remove s)
         else same_markers s s'))"

definition silent :: "planner \<Rightarrow> planner \<Rightarrow> bool" where
  "silent s s' = (actions s' = actions s \<and> same_markers s s')"

definition advance :: "planner \<Rightarrow> planner \<Rightarrow> bool" where
  "advance = (\<lambda>s s'. emission s s' \<or> silent s s')\<^sup>*\<^sup>*"

definition guarded :: "action \<Rightarrow> bool" where
  \<comment> \<open>the actions of the passes that consult the removal marker\<close>
  "guarded a =
     ((a_type a = ''set_entity_area'' \<and> a_confidence a \<noteq> 0.85)
      \<or> (a_type a = ''hide_entity'' \<and> a_confidence a = 0.9))"

definition respects_removals :: "action list \<Rightarrow> bool" where
  \<comment> \<open>no guarded action follows a removal of its entity\<close>
  "respects_removals as =
     (\<forall>pre a post. as = pre @ [a] @ post \<and> guarded a \<longrightarrow> target a \<notin> set (removals pre))"

definition placed_in_fallback :: "string \<Rightarrow> string \<Rightarrow> action \<Rightarrow> bool" where
  "placed_in_fallback entity_id area_id a =
     (a_type a = ''set_entity_area''
      \<and> a_payload a = [(''entity_id'', Some entity_id), (''area_id'', Some area_id)]
      \<and> a_confidence a = 0.6 \<and> a_requires_approval a)"

definition marked :: "planner \<Rightarrow> bool" where
  \<comment> \<open>the removal and hide markers cover the actions, which hold no entity twice, and
      no guarded action follows a removal of its entity\<close>
  "marked s =
     (set (removals (actions s)) \<subseteq> planned_entity_remove s
      \<and> set (hides (actions s)) \<subseteq> planned_entity_hide s
      \<and> distinct (removals (actions s)) \<and> distinct (hides (actions s))
      \<and> respects_removals (actions s))"

section \<open>Concrete inputs\<close>

definition fp_empty_entity :: action where
  "fp_empty_entity = \<lparr>a_id = ''1'', a_type = ''set_entity_area'',
      a_payload = [(''entity_id'', Some []), (''device_id'', Some ''d1'')],
      a_reason = [], a_confidence = 0.95, a_requires_approval = False\<rparr>"

definition fp_rename_area :: action where
  "fp_rename_area = \<lparr>a_id = ''2'', a_type = ''rename_area'',
      a_payload = [(''area_id'', Some ''kitchen''), (''name'', Some ''Keuken'')],
      a_reason = [], a_confidence = 0.9, a_requires_approval = True\<rparr>"

definition fp_bare :: "string \<Rightarrow> payload \<Rightarrow> action" where
  "fp_bare i p = \<lparr>a_id = i, a_type = ''hide_entity'', a_payload = p,
      a_reason = [], a_confidence = 0.9, a_requires_approval = True\<rparr>"

definition mk_entity :: "string \<Rightarrow> string option \<Rightarrow> string option \<Rightarrow> entity" where
  "mk_entity entity_id device_id area_id =
     \<lparr>e_entity_id = Some entity_id, e_unique_id = None, e_name = None, e_original_name = None,
      e_device_id = device_id, e_area_id = area_id, e_hidden_by = None, e_disabled_by = None\<rparr>"

definition mk_action :: "string \<Rightarrow> string \<Rightarrow> payload \<Rightarrow> bool \<Rightarrow> action" where
  "mk_action i t p req =
     \<lparr>a_id = i, a_type = t, a_payload = p, a_reason = [], a_confidence = 1, a_requires_approval = req\<rparr>"

definition mk_plan :: "action list \<Rightarrow> plan_doc" where
  "mk_plan as = \<lparr>p_created_at = ''t0'', p_rules = (None, None), p_actions = as,
     p_area_name_by_id = [], p_ignored_count = 0\<rparr>"

definition two_lights :: registry where
  "two_lights = \<lparr>reg_areas = [\<lparr>ar_area_id = Some ''a'', ar_name = Some ''A''\<rparr>,
                               \<lparr>ar_area_id = Some ''b'', ar_name = Some ''B''\<rparr>],
                  reg_devices = [],
                  reg_entities = [mk_entity ''light.one'' None (Some ''a''),
                                  mk_entity ''light.two'' None (Some ''a'')],
                  reg_states = []\<rparr>"

text \<open>A plan made before \<open>light.gone\<close> left the registry, and the files that hold it.\<close>

definition stale_plan :: plan_doc where
  "stale_plan = mk_plan
     [mk_action ''1'' ''set_entity_area'' [(''entity_id'', Some ''light.one''), (''area_id'', Some ''b'')] False,
      mk_action ''2'' ''set_entity_area'' [(''entity_id'', Some ''light.gone''), (''area_id'', Some ''b'')] False,
      mk_action ''3'' ''set_entity_area'' [(''entity_id'', Some ''light.two''), (''area_id'', Some ''b'')] False]"

definition stale_files :: files where
  "stale_files = \<lparr>plan_json = Some stale_plan, rollback_json = None, ignored_json = None\<rparr>"

text \<open>
  A record of six steps in apply order. Undone from the last: the update of
  \<open>light.gone\<close> is rejected first, the note and the restore note follow, then the area and
  the entity are restored and the update of the unknown device is rejected.
\<close>

definition mixed_record :: rollback_record where
  "mixed_record = \<lparr>rb_created_at = ''t1'',
     rb_steps = [Entity_step ''light.one'' [(''area_id'', Some ''b'')],
                 Device_step ''dev.gone'' [(''area_id'', None)],
                 Area_step ''a'' [(''name'', Some ''Attic'')],
                 Entity_restore_note ''light.old'' None,
                 Note (Some ''area_2'') ''Onbekend'',
                 Entity_step ''light.gone'' [(''area_id'', Some ''a'')]]\<rparr>"

definition rollback_files :: files where
  "rollback_files = \<lparr>plan_json = None, rollback_json = Some mixed_record, ignored_json = None\<rparr>"

definition create_existing :: action where
  "create_existing = mk_action ''7'' ''create_area'' [(''name'', Some ''B'')] True"

definition empty_acc :: apply_acc where
  "empty_acc = \<lparr>rollback_steps = [], applied = [], skipped = []\<rparr>"

definition snapshot_of :: "registry \<Rightarrow> registry_snapshot" where
  "snapshot_of r = \<lparr>entity_by_id = by_key e_entity_id (reg_entities r),
                    area_by_name = by_key ar_name (reg_areas r),
                    device_by_id = by_key d_id (reg_devices r),
                    area_by_id = by_key ar_area_id (reg_areas r)\<rparr>"

definition active_state :: "string \<Rightarrow> live_state" where
  "active_state entity_id = \<lparr>s_entity_id = Some entity_id, s_state = Some ''on'', s_friendly_name = None\<rparr>"

definition kitchen :: fetched where
  "kitchen = \<lparr>f_areas = [\<lparr>ar_area_id = Some ''living_room'', ar_name = Some ''Living Room''\<rparr>,
                          \<lparr>ar_area_id = Some ''kitchen'', ar_name = Some ''Kitchen''\<rparr>],
               f_devices = [],
               f_entities = [mk_entity ''sensor.kitchen_temp'' None (Some ''kitchen''),
                             mk_entity ''sensor.kitchen_temp_2'' None (Some ''kitchen''),
                             mk_entity ''light.living_room_lamp'' None None,
                             mk_entity ''sensor.living_temp'' None None],
               states_by_entity_id = by_key s_entity_id
                 [active_state ''sensor.kitchen_temp'', active_state ''sensor.kitchen_temp_2'',
                  active_state ''light.living_room_lamp'', active_state ''sensor.living_temp'']\<rparr>"

definition numbering :: "nat \<Rightarrow> string" where
  "numbering k = ''id-'' @ decimal k"

definition no_rules :: rules where
  "no_rules = \<lparr>area_renames = [], entity_remove_ids = [], entity_remove_regex = [],
     entity_hide_ids = [], entity_hide_regex = [], entity_area = [], device_area = [],
     helper_area_rules = []\<rparr>"

definition plain_config :: engine_config where
  "plain_config = \<lparr>onbekend_area_name = ''Onbekend'', fresh_ids = numbering,
     compile_regex = (\<lambda>pat. None)\<rparr>"

text \<open>One active entity that no area name matches; there is no area called Onbekend.\<close>

definition lost_sensor :: fetched where
  "lost_sensor = \<lparr>f_areas = [\<lparr>ar_area_id = Some ''kitchen'', ar_name = Some ''Kitchen''\<rparr>],
                   f_devices = [],
                   f_entities = [mk_entity ''sensor.lost'' None None],
                   states_by_entity_id = by_key s_entity_id [active_state ''sensor.lost'']\<rparr>"

text \<open>The same registry where the area Onbekend exists.\<close>

definition lost_sensor_with_area :: fetched where
  "lost_sensor_with_area =
     lost_sensor\<lparr>f_areas := [\<lparr>ar_area_id = Some ''kitchen'', ar_name = Some ''Kitchen''\<rparr>,
                              \<lparr>ar_area_id = Some ''onbekend'', ar_name = Some ''Onbekend''\<rparr>]\<rparr>"

section \<open>Fingerprints\<close>

lemma py_or_chain:
  "str_or_empty (py_or (py_or (py_or (py_or e dv) ar) nm) (Some [])) =
     (if truthy e then str_or_empty e else if truthy dv then str_or_empty dv
      else if truthy ar then str_or_empty ar else if truthy nm then str_or_empty nm else [])"
  by (simp add: py_or_def str_or_empty_def truthy_def split: option.splits)

lemma truthy_get_present: "truthy (py_get p k) \<Longrightarrow> k \<in> fst ` set p"
  by (auto simp: py_get_def truthy_def split: option.splits dest: map_of_SomeD intro: rev_image_eqI)

lemma get_absent: "k \<notin> fst ` set p \<Longrightarrow> py_get p k = None"
  using map_of_eq_None_iff [of p k] by (simp add: py_get_def)

text \<open>
  C5, as the data model words it, fails: the key of the fingerprint is not the value of the
  first key that is present. A payload whose \<open>entity_id\<close> is present but empty, followed by
  a \<open>device_id\<close>, is fingerprinted by the device.
\<close>

theorem fingerprint_first_present_counterexample:
  "action_fingerprint fp_empty_entity
     \<noteq> a_type fp_empty_entity @ '':'' @ first_present_key (a_payload fp_empty_entity)"
  by (simp add: fp_empty_entity_def action_fingerprint_def first_present_key_def py_get_def
      py_or_def truthy_def str_or_empty_def)

text \<open>
  C5 (amended): the fingerprint is a function of type and payload alone, and it is the type,
  a colon, and the first non-empty value among \<open>entity_id\<close>, \<open>device_id\<close>, \<open>area_id\<close>,
  \<open>name\<close> (a key that is missing, null or empty is passed over; the empty string when
  there is none). Whenever each of the four keys that is present holds a non-empty value,
  this is the first present key, as the data model says.
\<close>

theorem fingerprint_first_nonempty:
  "(a_type a = a_type b \<and> a_payload a = a_payload b \<longrightarrow> action_fingerprint a = action_fingerprint b)
   \<and> action_fingerprint a = a_type a @ '':'' @ first_nonempty_key (a_payload a)
   \<and> ((\<forall>k \<in> fst ` set (a_payload a). k \<in> set [''entity_id'', ''device_id'', ''area_id'', ''name'']
          \<longrightarrow> truthy (py_get (a_payload a) k))
        \<longrightarrow> first_nonempty_key (a_payload a) = first_present_key (a_payload a))"
proof (intro conjI impI)
  assume "a_type a = a_type b \<and> a_payload a = a_payload b"
  then show "action_fingerprint a = action_fingerprint b"
    by (simp add: action_fingerprint_def)
next
  show "action_fingerprint a = a_type a @ '':'' @ first_nonempty_key (a_payload a)"
    by (simp add: action_fingerprint_def first_nonempty_key_def py_or_chain Let_def)
next
  let ?keys = "[''entity_id'', ''device_id'', ''area_id'', ''name'']"
  assume h: "\<forall>k \<in> fst ` set (a_payload a). k \<in> set ?keys \<longrightarrow> truthy (py_get (a_payload a) k)"
  have eq: "k \<in> set ?keys \<Longrightarrow>
        (k \<in> fst ` set (a_payload a)) = truthy (py_get (a_payload a) k)" for k
    using h truthy_get_present by blast
  have "filter (\<lambda>k. k \<in> fst ` set (a_payload a)) ?keys
      = filter (\<lambda>k. truthy (py_get (a_payload a) k)) ?keys"
    by (rule filter_cong[OF refl]) (use eq in blast)
  then show "first_nonempty_key (a_payload a) = first_present_key (a_payload a)"
    by (simp only: first_nonempty_key_def first_present_key_def)
qed

theorem fingerprint_first_nonempty_witness:
  "action_fingerprint fp_rename_area = ''rename_area:kitchen''
   \<and> first_present_key (a_payload fp_rename_area) = ''kitchen''
   \<and> action_fingerprint fp_empty_entity = ''set_entity_area:d1''"
  using fingerprint_first_nonempty [of fp_rename_area fp_rename_area]
        fingerprint_first_nonempty [of fp_empty_entity fp_empty_entity]
  by (simp add: fp_rename_area_def fp_empty_entity_def first_nonempty_key_def py_get_def
      truthy_def str_or_empty_def)

text \<open>
  C10: an action whose payload holds none of the four keys is fingerprinted by its type and
  a colon alone. Two such actions of one type therefore share their fingerprint, and once
  that fingerprint is in the ignore store no plan computed from it shows either of them,
  whatever the snapshot and the rules.
\<close>

theorem fingerprint_without_keys:
  assumes "\<forall>k \<in> set [''entity_id'', ''device_id'', ''area_id'', ''name'']. k \<notin> fst ` set (a_payload a)"
  shows "action_fingerprint a = a_type a @ '':''
    \<and> ((\<forall>k \<in> set [''entity_id'', ''device_id'', ''area_id'', ''name'']. k \<notin> fst ` set (a_payload b))
           \<and> a_type b = a_type a \<longrightarrow> action_fingerprint b = action_fingerprint a)
    \<and> (a_type a @ '':'' \<in> set ignored \<longrightarrow> a \<notin> set (visible_actions ignored all_actions))
    \<and> (a_type a @ '':'' \<in> set fps
           \<and> plan ha cfg now r meta fallback (snd (add_ignored fps fs)) w = (Inr p, out)
           \<longrightarrow> a \<notin> set (p_actions p))"
proof -
  have fp: "action_fingerprint x = a_type x @ '':''"
    if "\<forall>k \<in> set [''entity_id'', ''device_id'', ''area_id'', ''name'']. k \<notin> fst ` set (a_payload x)"
    for x :: action
    using that by (simp add: action_fingerprint_def get_absent py_or_def truthy_def str_or_empty_def)
  have a: "action_fingerprint a = a_type a @ '':''"
    using assms by (rule fp)
  have b: "(\<forall>k \<in> set [''entity_id'', ''device_id'', ''area_id'', ''name'']. k \<notin> fst ` set (a_payload b))
           \<and> a_type b = a_type a \<longrightarrow> action_fingerprint b = action_fingerprint a"
    using fp [of b] a by simp
  have c: "a_type a @ '':'' \<in> set ignored \<longrightarrow> a \<notin> set (visible_actions ignored all_actions)"
    using a by (simp add: visible_actions_def)
  have d: "a_type a @ '':'' \<in> set fps
           \<and> plan ha cfg now r meta fallback (snd (add_ignored fps fs)) w = (Inr p, out)
           \<longrightarrow> a \<notin> set (p_actions p)"
  proof
    assume h: "a_type a @ '':'' \<in> set fps
      \<and> plan ha cfg now r meta fallback (snd (add_ignored fps fs)) w = (Inr p, out)"
    let ?fs = "snd (add_ignored fps fs)"
    have ign: "a_type a @ '':'' \<in> set (load_ignored ?fs)"
      using h by (simp add: add_ignored_def save_ignored_def load_ignored_def Let_def)
    obtain d where "p = plan_of cfg now r meta fallback (load_ignored ?fs) d"
      using h by (auto simp: plan_def Let_def split: prod.splits sum.splits)
    then show "a \<notin> set (p_actions p)"
      using ign a by (simp add: plan_of_def visible_actions_def Let_def)
  qed
  from a b c d show ?thesis by blast
qed

theorem fingerprint_without_keys_witness:
  "action_fingerprint (fp_bare ''a1'' [(''hidden_by'', Some ''user'')]) = ''hide_entity:''
   \<and> action_fingerprint (fp_bare ''a2'' []) = action_fingerprint (fp_bare ''a1'' [(''hidden_by'', Some ''user'')])
   \<and> fp_bare ''a1'' [(''hidden_by'', Some ''user'')]
        \<notin> set (visible_actions [''hide_entity:'']
                 [fp_bare ''a1'' [(''hidden_by'', Some ''user'')], fp_bare ''a2'' []])"
proof -
  have h: "\<forall>k \<in> set [''entity_id'', ''device_id'', ''area_id'', ''name''].
             k \<notin> fst ` set (a_payload (fp_bare ''a1'' [(''hidden_by'', Some ''user'')]))"
    by (simp add: fp_bare_def)
  note t = fingerprint_without_keys [OF h, where b = "fp_bare ''a2'' []"
            and ignored = "[''hide_entity:'']"
            and all_actions = "[fp_bare ''a1'' [(''hidden_by'', Some ''user'')], fp_bare ''a2'' []]"]
  show ?thesis
    using t [THEN conjunct1] t [THEN conjunct2, THEN conjunct1]
      t [THEN conjunct2, THEN conjunct2, THEN conjunct1]
    by (simp add: fp_bare_def)
qed

section \<open>Rollback\<close>

lemma failures_Cons:
  "failures ((x, r) # xs) = (case r of Inl err \<Rightarrow> [(x, err)] | Inr _ \<Rightarrow> []) @ failures xs"
  by (simp add: failures_def List.map_filter_simps split: sum.splits)

lemma failures_Nil: "failures [] = []"
  by (simp add: failures_def List.map_filter_simps)

lemma reissued_cases: "reissued st = [] \<or> (\<exists>c. reissued st = [c])"
  by (cases st) simp_all

lemma reissued_is_update: "reissued st = [c] \<Longrightarrow> is_update_step st"
  by (cases st) simp_all

lemma rollback_one_silent:
  assumes "well_formed_step st" and "reissued st = []"
  shows "rollback_one ha st (acc, w) =
           ((if is_update_step st then acc\<lparr>reverted := reverted acc + 1\<rparr> else acc), w)"
proof (cases st)
  case (Area_step area_id captured)
  with assms(2) have "\<forall>kv \<in> set captured. snd kv = None"
    by (simp split: if_splits)
  then have "filter (\<lambda>kv. snd kv \<noteq> None) captured = []"
    by (simp add: filter_empty_conv)
  with Area_step show ?thesis by (simp add: rollback_one_def)
qed (use assms in \<open>simp_all add: rollback_one_def\<close>)

lemma no_clash:
  assumes "k1 \<notin> fst ` set kw" and "k2 \<notin> fst ` set kw"
  shows "\<not> kwargs_clash [k1, k2] kw"
proof
  assume "kwargs_clash [k1, k2] kw"
  then obtain k where "k \<in> fst ` set kw" "k = k1 \<or> k = k2"
    unfolding kwargs_clash_def by auto
  with assms show False by blast
qed

lemma rollback_one_call:
  assumes "well_formed_step st" and "reissued st = [c]"
  shows "rollback_one ha st (acc, w) = attempt ha st c (acc, w)"
proof (cases st)
  case (Entity_step entity_id captured)
  with assms(1) have "\<not> kwargs_clash [''self'', ''entity_id''] captured"
    by (intro no_clash) simp_all
  with assms(2) Entity_step show ?thesis
    by (simp add: rollback_one_def)
next
  case (Device_step device_id captured)
  with assms(1) have "\<not> kwargs_clash [''self'', ''device_id''] captured"
    by (intro no_clash) simp_all
  with assms(2) Device_step show ?thesis
    by (simp add: rollback_one_def)
next
  case (Area_step area_id captured)
  let ?clean = "filter (\<lambda>kv. snd kv \<noteq> None) captured"
  from assms(2) Area_step have c: "c = Area_update area_id ?clean"
    and ne: "\<not> (\<forall>kv \<in> set captured. snd kv = None)"
    by (simp_all split: if_splits)
  from ne have ne': "(?clean \<noteq> []) = True" by (simp add: filter_empty_conv)
  have nc: "(\<exists>k \<in> set (map fst ?clean). k \<noteq> ''name'') = False"
  proof -
    from assms(1) Area_step have "fst ` set ?clean \<subseteq> {''name''}"
      by (simp only: well_formed_step.simps)
    then show ?thesis by (simp only: set_map) blast
  qed
  show ?thesis
    unfolding Area_step c rollback_one_def
    by (simp only: rollback_step.case Let_def ne' nc if_True if_False)
qed (use assms in simp_all)

lemma attempt_run:
  "attempt ha st c (acc, (h, tr)) =
     (case ha c h of
        (Inl err, h') \<Rightarrow> (acc\<lparr>errors := errors acc @ [(st, err)]\<rparr>, (h', tr @ [c]))
      | (Inr x, h') \<Rightarrow> (acc\<lparr>reverted := reverted acc + 1\<rparr>, (h', tr @ [c])))"
  by (simp add: attempt_def send_def split: prod.splits sum.splits)

lemma rollback_fold:
  assumes "\<forall>st \<in> set xs. well_formed_step st"
  shows "\<exists>n. fold (rollback_one ha) xs (acc, (h, tr)) =
       (acc\<lparr>reverted := reverted acc + n,
            errors := errors acc @ failures (zip (filter (\<lambda>st. reissued st \<noteq> []) xs)
                                              (fst (run_calls ha (concat (map reissued xs)) h)))\<rparr>,
        (snd (run_calls ha (concat (map reissued xs)) h), tr @ concat (map reissued xs)))
     \<and> n + length (failures (zip (filter (\<lambda>st. reissued st \<noteq> []) xs)
                                (fst (run_calls ha (concat (map reissued xs)) h))))
         = length (filter is_update_step xs)"
  using assms
proof (induction xs arbitrary: acc h tr)
  case Nil
  show ?case by (simp add: failures_Nil)
next
  case (Cons st xs)
  from Cons.prems have wf: "well_formed_step st" and wfs: "\<forall>st \<in> set xs. well_formed_step st"
    by simp_all
  show ?case
  proof (cases "reissued st = []")
    case True
    let ?acc = "if is_update_step st then acc\<lparr>reverted := reverted acc + 1\<rparr> else acc"
    have step: "rollback_one ha st (acc, (h, tr)) = (?acc, (h, tr))"
      using wf True by (rule rollback_one_silent)
    from Cons.IH [OF wfs, of ?acc h tr] obtain n where
      n: "fold (rollback_one ha) xs (?acc, (h, tr)) =
       (?acc\<lparr>reverted := reverted ?acc + n,
            errors := errors ?acc @ failures (zip (filter (\<lambda>st. reissued st \<noteq> []) xs)
                                              (fst (run_calls ha (concat (map reissued xs)) h)))\<rparr>,
        (snd (run_calls ha (concat (map reissued xs)) h), tr @ concat (map reissued xs)))"
      and len: "n + length (failures (zip (filter (\<lambda>st. reissued st \<noteq> []) xs)
                                (fst (run_calls ha (concat (map reissued xs)) h))))
         = length (filter is_update_step xs)"
      by blast
    show ?thesis
      by (rule exI [of _ "(if is_update_step st then 1 else 0) + n"])
         (use True step n len in simp)
  next
    case False
    then obtain c where c: "reissued st = [c]" using reissued_cases [of st] by blast
    obtain r h1 where r: "ha c h = (r, h1)" by (cases "ha c h")
    obtain rs h2 where rs: "run_calls ha (concat (map reissued xs)) h1 = (rs, h2)"
      by (cases "run_calls ha (concat (map reissued xs)) h1")
    let ?acc = "case r of Inl err \<Rightarrow> acc\<lparr>errors := errors acc @ [(st, err)]\<rparr>
                       | Inr _ \<Rightarrow> acc\<lparr>reverted := reverted acc + 1\<rparr>"
    have step: "rollback_one ha st (acc, (h, tr)) = (?acc, (h1, tr @ [c]))"
      using rollback_one_call [OF wf c, of ha acc "(h, tr)"] r
      by (simp add: attempt_run split: sum.splits)
    from Cons.IH [OF wfs, of ?acc h1 "tr @ [c]"] obtain n where
      n: "fold (rollback_one ha) xs (?acc, (h1, tr @ [c])) =
       (?acc\<lparr>reverted := reverted ?acc + n,
            errors := errors ?acc @ failures (zip (filter (\<lambda>st. reissued st \<noteq> []) xs)
                                              (fst (run_calls ha (concat (map reissued xs)) h1)))\<rparr>,
        (snd (run_calls ha (concat (map reissued xs)) h1), (tr @ [c]) @ concat (map reissued xs)))"
      and len: "n + length (failures (zip (filter (\<lambda>st. reissued st \<noteq> []) xs)
                                (fst (run_calls ha (concat (map reissued xs)) h1))))
         = length (filter is_update_step xs)"
      by blast
    show ?thesis
      by (rule exI [of _ "(case r of Inl _ \<Rightarrow> 0 | Inr _ \<Rightarrow> 1) + n"])
         (use c step n len r rs reissued_is_update [OF c] in
           \<open>simp add: failures_Cons split: sum.splits\<close>)
  qed
qed

text \<open>
  C2: rollback walks the persisted steps from the most recent to the oldest. For a record as
  apply writes it and whatever the client answers, the calls issued are exactly: for an
  entity or device step the update with the captured map, for an area step the update with
  the captured fields that are not null, for a note or a restore note nothing; in reverse
  order of the record, and all of them, also after one has raised. The errors returned
  are the steps whose call raised, with the message, in that order; \<open>ok\<close> is true exactly
  when that list is empty; every entity, device or area step is either counted as reverted
  or reported as an error.
\<close>

theorem rollback_reverse_best_effort:
  assumes "rollback_json fs = Some rb" and "\<forall>st \<in> set (rb_steps rb). well_formed_step st"
  shows "\<exists>n. rollback ha fs (h, tr) =
            (Rolled_back (failures (zip (undo_steps rb) (fst (run_calls ha (undo_calls rb) h))) = [])
               n (failures (zip (undo_steps rb) (fst (run_calls ha (undo_calls rb) h)))),
             (snd (run_calls ha (undo_calls rb) h), tr @ undo_calls rb))
          \<and> n + length (failures (zip (undo_steps rb) (fst (run_calls ha (undo_calls rb) h))))
              = length (filter is_update_step (rb_steps rb))"
proof -
  let ?errs = "failures (zip (undo_steps rb) (fst (run_calls ha (undo_calls rb) h)))"
  have wf: "\<forall>st \<in> set (rev (rb_steps rb)). well_formed_step st"
    using assms(2) by simp
  from rollback_fold [OF wf, of ha "\<lparr>reverted = 0, errors = []\<rparr>" h tr]
  obtain n where
    n: "fold (rollback_one ha) (rev (rb_steps rb)) (\<lparr>reverted = 0, errors = []\<rparr>, (h, tr)) =
       (\<lparr>reverted = n, errors = ?errs\<rparr>, (snd (run_calls ha (undo_calls rb) h), tr @ undo_calls rb))"
    and len: "n + length ?errs = length (filter is_update_step (rev (rb_steps rb)))"
    by (auto simp: undo_steps_def undo_calls_def)
  show ?thesis
    by (rule exI [of _ n])
       (use assms(1) n len in \<open>simp add: rollback_def rev_filter [symmetric]\<close>)
qed

lemma rollback_one_malformed:
  "kwargs_clash [''self'', ''entity_id''] captured \<Longrightarrow>
     rollback_one ha (Entity_step entity_id captured) (acc, w)
       = (acc\<lparr>errors := errors acc @ [(Entity_step entity_id captured, ''TypeError'')]\<rparr>, w)"
  by (simp add: rollback_one_def type_error_def)

theorem rollback_reverse_best_effort_witness:
  "rollback_json rollback_files = Some mixed_record
   \<and> rollback registry_client rollback_files (two_lights, [])
       = (Rolled_back False 2
            [(Entity_step ''light.gone'' [(''area_id'', Some ''a'')], ''HA error not_found: ?''),
             (Device_step ''dev.gone'' [(''area_id'', None)], ''HA error not_found: ?'')],
          (two_lights\<lparr>reg_areas := [\<lparr>ar_area_id = Some ''a'', ar_name = Some ''Attic''\<rparr>,
                                     \<lparr>ar_area_id = Some ''b'', ar_name = Some ''B''\<rparr>],
                      reg_entities := [mk_entity ''light.one'' None (Some ''b''),
                                       mk_entity ''light.two'' None (Some ''a'')]\<rparr>,
           [Entity_update ''light.gone'' [(''area_id'', Some ''a'')],
            Area_update ''a'' [(''name'', Some ''Attic'')],
            Device_update ''dev.gone'' [(''area_id'', None)],
            Entity_update ''light.one'' [(''area_id'', Some ''b'')]]))"
proof -
  have f: "rollback_json rollback_files = Some mixed_record"
    by (simp add: rollback_files_def)
  have wf: "\<forall>st \<in> set (rb_steps mixed_record). well_formed_step st"
    by (simp add: mixed_record_def)
  have calls: "undo_calls mixed_record
       = [Entity_update ''light.gone'' [(''area_id'', Some ''a'')],
          Area_update ''a'' [(''name'', Some ''Attic'')],
          Device_update ''dev.gone'' [(''area_id'', None)],
          Entity_update ''light.one'' [(''area_id'', Some ''b'')]]"
    by (simp add: undo_calls_def mixed_record_def)
  have steps: "undo_steps mixed_record
       = [Entity_step ''light.gone'' [(''area_id'', Some ''a'')],
          Area_step ''a'' [(''name'', Some ''Attic'')],
          Device_step ''dev.gone'' [(''area_id'', None)],
          Entity_step ''light.one'' [(''area_id'', Some ''b'')]]"
    by (simp add: undo_steps_def mixed_record_def)
  have run: "run_calls registry_client (undo_calls mixed_record) two_lights
       = ([Inl ''HA error not_found: ?'', Inr (Result [(''name'', Some ''Attic'')]),
           Inl ''HA error not_found: ?'', Inr (Result [(''area_id'', Some ''b'')])],
          two_lights\<lparr>reg_areas := [\<lparr>ar_area_id = Some ''a'', ar_name = Some ''Attic''\<rparr>,
                                     \<lparr>ar_area_id = Some ''b'', ar_name = Some ''B''\<rparr>],
                      reg_entities := [mk_entity ''light.one'' None (Some ''b''),
                                       mk_entity ''light.two'' None (Some ''a'')]\<rparr>)"
    unfolding calls
    by (simp add: registry_client_def two_lights_def mk_entity_def entity_fields_def
        device_fields_def set_entity_field_def)
  have errs: "failures (zip (undo_steps mixed_record)
                 (fst (run_calls registry_client (undo_calls mixed_record) two_lights)))
       = [(Entity_step ''light.gone'' [(''area_id'', Some ''a'')], ''HA error not_found: ?''),
          (Device_step ''dev.gone'' [(''area_id'', None)], ''HA error not_found: ?'')]"
    unfolding run steps by (simp add: failures_def List.map_filter_simps)
  have cnt: "length (filter is_update_step (rb_steps mixed_record)) = 4"
    by (simp add: mixed_record_def)
  from rollback_reverse_best_effort [OF f wf, of registry_client two_lights "[]"]
  obtain n where n: "rollback registry_client rollback_files (two_lights, []) =
            (Rolled_back (failures (zip (undo_steps mixed_record)
                 (fst (run_calls registry_client (undo_calls mixed_record) two_lights))) = [])
               n (failures (zip (undo_steps mixed_record)
                 (fst (run_calls registry_client (undo_calls mixed_record) two_lights)))),
             (snd (run_calls registry_client (undo_calls mixed_record) two_lights),
              [] @ undo_calls mixed_record))"
    and len: "n + length (failures (zip (undo_steps mixed_record)
                 (fst (run_calls registry_client (undo_calls mixed_record) two_lights))))
              = length (filter is_update_step (rb_steps mixed_record))"
    by blast
  from len have "n = 2" unfolding errs cnt by simp
  with n have "rollback registry_client rollback_files (two_lights, []) =
       (Rolled_back False 2
            [(Entity_step ''light.gone'' [(''area_id'', Some ''a'')], ''HA error not_found: ?''),
             (Device_step ''dev.gone'' [(''area_id'', None)], ''HA error not_found: ?'')],
        (snd (run_calls registry_client (undo_calls mixed_record) two_lights),
         undo_calls mixed_record))"
    unfolding errs by simp
  then show ?thesis
    unfolding run using f by (simp add: calls)
qed

section \<open>Apply\<close>

lemma dom_by_key: "dom (by_key key xs) = {s. s \<noteq> [] \<and> Some s \<in> key ` set xs}"
proof -
  have "dom (by_key key xs) = (\<lambda>x. str_or_empty (key x)) ` {x \<in> set xs. truthy (key x)}"
    by (simp add: by_key_def dict_of_def dom_map_of_conv_image_fst image_image)
  also have "\<dots> = {s. s \<noteq> [] \<and> Some s \<in> key ` set xs}"
  proof (intro set_eqI iffI)
    fix s assume "s \<in> (\<lambda>x. str_or_empty (key x)) ` {x \<in> set xs. truthy (key x)}"
    then obtain x where x: "x \<in> set xs" "truthy (key x)" "s = str_or_empty (key x)" by blast
    from x(2) obtain t where t: "key x = Some t" "t \<noteq> []"
      by (cases "key x") (simp_all add: truthy_def)
    with x have "s = t" by (simp add: str_or_empty_def)
    with t x(1) show "s \<in> {s. s \<noteq> [] \<and> Some s \<in> key ` set xs}"
      by (simp add: image_iff) (metis)
  next
    fix s assume "s \<in> {s. s \<noteq> [] \<and> Some s \<in> key ` set xs}"
    then obtain x where x: "x \<in> set xs" "key x = Some s" "s \<noteq> []"
      by (auto simp: image_iff)
    then have "truthy (key x)" "str_or_empty (key x) = s"
      by (simp_all add: truthy_def str_or_empty_def)
    with x(1) show "s \<in> (\<lambda>x. str_or_empty (key x)) ` {x \<in> set xs. truthy (key x)}"
      by (metis (mono_tags, lifting) image_eqI mem_Collect_eq)
  qed
  finally show ?thesis .
qed

lemmas apply_eval = apply_plan_def fetch_for_apply_def send_def registry_client_def apply_action_def
  mutate_def by_key_def dict_of_def py_get_def truthy_def str_or_empty_def before_of_def skip_def
  entity_fields_def device_fields_def set_entity_field_def Let_def

text \<open>
  C6: a \<open>create_area\<close> action that passes the approval gate and whose name is the name of
  one of the fetched areas is reported as applied; the client is not called (the world,
  with its list of calls, is unchanged), no rollback step is appended, nothing is skipped
  and nothing is raised.
\<close>

theorem create_area_existing_name:
  assumes "a_type a = ''create_area''"
    and "py_get (a_payload a) ''name'' = Some name" and "name \<noteq> []"
    and "area_by_name snap = by_key ar_name areas" and "Some name \<in> ar_name ` set areas"
    and "a_requires_approval a \<longrightarrow> a_id a \<in> approved"
  shows "apply_action ha snap approved a acc w = (Inr (acc\<lparr>applied := applied acc @ [a_id a]\<rparr>), w)"
proof -
  have known: "name \<in> dom (area_by_name snap)"
    using assms(3,4,5) by (simp add: dom_by_key)
  have gate: "(a_requires_approval a \<and> a_id a \<notin> approved) = False"
    using assms(6) by blast
  show ?thesis
    using assms(1,2,3) known
    by (simp add: apply_action_def Let_def gate truthy_def str_or_empty_def)
qed

theorem create_area_existing_name_witness:
  "apply_action registry_client (snapshot_of two_lights) {''7''} create_existing empty_acc (two_lights, [])
     = (Inr \<lparr>rollback_steps = [], applied = [''7''], skipped = []\<rparr>, (two_lights, []))"
proof -
  have "apply_action registry_client (snapshot_of two_lights) {''7''} create_existing empty_acc (two_lights, [])
     = (Inr (empty_acc\<lparr>applied := applied empty_acc @ [a_id create_existing]\<rparr>), (two_lights, []))"
    by (rule create_area_existing_name [where name = "''B''" and areas = "reg_areas two_lights"])
       (simp_all add: create_existing_def mk_action_def py_get_def snapshot_of_def two_lights_def)
  then show ?thesis
    by (simp add: empty_acc_def create_existing_def mk_action_def)
qed

lemma apply_plan_error_keeps_files:
  assumes "apply_plan ha now approved_action_ids fs w = (Inl err, fs', w')"
  shows "fs' = fs"
proof (cases "plan_json fs")
  case None
  with assms show ?thesis by (simp add: apply_plan_def)
next
  case (Some plan)
  obtain r1 w1 where f: "fetch_for_apply ha w = (r1, w1)"
    by (cases "fetch_for_apply ha w")
  show ?thesis
  proof (cases r1)
    case (Inl e)
    with assms Some f show ?thesis by (simp add: apply_plan_def)
  next
    case (Inr snap)
    obtain r2 w2 where l: "apply_loop ha snap (set approved_action_ids) (p_actions plan)
        \<lparr>rollback_steps = [], applied = [], skipped = []\<rparr> w1 = (r2, w2)"
      by (cases "apply_loop ha snap (set approved_action_ids) (p_actions plan)
        \<lparr>rollback_steps = [], applied = [], skipped = []\<rparr> w1")
    with assms Some f Inr show ?thesis
      by (cases r2) (simp_all add: apply_plan_def Let_def)
  qed
qed

text \<open>
  C1 does not hold of the code: \<^verbatim>\<open>apply\<close> has no handler around its mutations. With a plan
  made before \<open>light.gone\<close> left the registry, the first action is applied, the second is
  rejected by the registry, and the exception ends the run: the third action is never
  processed and the rollback record, which held the step of the first action, is not
  written.
\<close>

theorem apply_aborts_on_rejected_mutation:
  "apply_plan registry_client ''t1'' [] stale_files (two_lights, []) =
     (Inl ''HA error not_found: ?'', stale_files,
      (two_lights\<lparr>reg_entities := [mk_entity ''light.one'' None (Some ''b''),
                                    mk_entity ''light.two'' None (Some ''a'')]\<rparr>,
       [Entity_list, Area_list, Device_list,
        Entity_update ''light.one'' [(''area_id'', Some ''b'')],
        Entity_update ''light.gone'' [(''area_id'', Some ''b'')]]))
   \<and> rollback_json stale_files = None"
  by (simp add: apply_eval stale_files_def stale_plan_def mk_plan_def mk_action_def two_lights_def
      mk_entity_def)

section \<open>Suffix duplicates\<close>

lemma lt10_cases: "n < 10 \<Longrightarrow> n \<in> {0, 1, 2, 3, 4, 5, 6, 7, 8, Suc 8}"
  for n :: nat by auto

lemma digit_char_digit: "n < 10 \<Longrightarrow> digit_char n \<in> set ascii_digits"
  by (drule lt10_cases) (auto simp: digit_char_def ascii_digits_def eval_nat_numeral)

lemma digit_char_pos: "n < 10 \<Longrightarrow> 0 < n \<Longrightarrow> digit_char n \<in> set ''123456789''"
  by (drule lt10_cases) (auto simp: digit_char_def ascii_digits_def eval_nat_numeral)

lemma digit_char_ge2: "n < 10 \<Longrightarrow> 2 \<le> n \<Longrightarrow> digit_char n \<in> set ''23456789''"
  by (drule lt10_cases) (auto simp: digit_char_def ascii_digits_def eval_nat_numeral)

lemma digit_ex: "c \<in> set ascii_digits \<Longrightarrow> \<exists>v < 10. c = digit_char v"
proof -
  assume "c \<in> set ascii_digits"
  then obtain i where "i < length ascii_digits" "c = ascii_digits ! i"
    by (auto simp: in_set_conv_nth)
  then show ?thesis by (intro exI [of _ i]) (simp add: digit_char_def ascii_digits_def)
qed

lemma digit_ex_pos: "c \<in> set ''123456789'' \<Longrightarrow> \<exists>v < 10. 0 < v \<and> c = digit_char v"
proof -
  assume c: "c \<in> set ''123456789''"
  then have "c \<in> set ascii_digits" by (auto simp: ascii_digits_def)
  then obtain v where v: "v < 10" "c = digit_char v" using digit_ex by blast
  have "v \<noteq> 0"
  proof
    assume "v = 0"
    with v have "c = CHR ''0''" by (simp add: digit_char_def ascii_digits_def)
    with c show False by simp
  qed
  with v show ?thesis by auto
qed

lemma digit_ex_ge2: "c \<in> set ''23456789'' \<Longrightarrow> \<exists>v < 10. 2 \<le> v \<and> c = digit_char v"
proof -
  assume c: "c \<in> set ''23456789''"
  then have "c \<in> set ''123456789''" by auto
  then obtain v where v: "v < 10" "0 < v" "c = digit_char v" using digit_ex_pos by blast
  have "v \<noteq> 1"
  proof
    assume "v = 1"
    with v have "c = CHR ''1''" by (simp add: digit_char_def ascii_digits_def)
    with c show False by simp
  qed
  with v show ?thesis by (intro exI [of _ v]) auto
qed

lemma decimal_small: "n < 10 \<Longrightarrow> decimal n = [digit_char n]"
  by (subst decimal.simps) simp

lemma decimal_big: "10 \<le> n \<Longrightarrow> decimal n = decimal (n div 10) @ [digit_char (n mod 10)]"
  by (subst decimal.simps) simp

lemma decimal_canon: "0 < n \<Longrightarrow> canon (decimal n)"
proof (induction n rule: decimal.induct)
  case (1 n)
  show ?case
  proof (cases "n < 10")
    case True
    with 1(2) show ?thesis
      using digit_char_pos [of n] digit_char_digit [of n]
      by (simp add: decimal_small canon_def)
  next
    case False
    then have "0 < n div 10" by simp
    with 1(1) False have "canon (decimal (n div 10))" by simp
    moreover have "digit_char (n mod 10) \<in> set ascii_digits"
      by (rule digit_char_digit) simp
    ultimately show ?thesis
      using False by (simp add: decimal_big canon_def)
  qed
qed

lemma canon_decimal: "canon d \<Longrightarrow> \<exists>n. 0 < n \<and> d = decimal n"
proof (induction d rule: rev_induct)
  case Nil
  then show ?case by (simp add: canon_def)
next
  case (snoc c d)
  from snoc.prems have c: "c \<in> set ascii_digits" by (simp add: canon_def)
  then obtain v where v: "v < 10" "c = digit_char v" using digit_ex by blast
  show ?case
  proof (cases "d = []")
    case True
    with snoc.prems have "c \<in> set ''123456789''" by (simp add: canon_def)
    then obtain u where u: "u < 10" "0 < u" "c = digit_char u" using digit_ex_pos by blast
    with True show ?thesis by (intro exI [of _ u]) (simp add: decimal_small)
  next
    case False
    with snoc.prems have "canon d" by (simp add: canon_def)
    then obtain m where m: "0 < m" "d = decimal m" using snoc.IH by blast
    from m(1) v(1) have "10 \<le> 10 * m + v" "(10 * m + v) div 10 = m" "(10 * m + v) mod 10 = v"
      by simp_all
    then have "decimal (10 * m + v) = d @ [c]"
      using m(2) v(2) by (simp add: decimal_big)
    moreover have "0 < 10 * m + v" using m(1) by simp
    ultimately show ?thesis by metis
  qed
qed

lemma decimal_nonempty: "decimal n \<noteq> []"
  by (subst decimal.simps) simp

lemma decimal_length_one: "length (decimal n) = 1 \<Longrightarrow> n < 10"
proof (rule ccontr)
  assume l: "length (decimal n) = 1" and "\<not> n < 10"
  then have "10 \<le> n" by simp
  then have "decimal n = decimal (n div 10) @ [digit_char (n mod 10)]" by (rule decimal_big)
  with l decimal_nonempty [of "n div 10"] show False
    by (cases "decimal (n div 10)") simp_all
qed

lemma suffix_ok_iff: "suffix_ok d \<longleftrightarrow> (\<exists>n. 2 \<le> n \<and> d = decimal n)"
proof
  assume ok: "suffix_ok d"
  show "\<exists>n. 2 \<le> n \<and> d = decimal n"
  proof (cases d)
    case Nil
    with ok show ?thesis by (simp add: suffix_ok_def)
  next
    case (Cons c cs)
    show ?thesis
    proof (cases cs)
      case Nil
      with Cons ok have "c \<in> set ''23456789''" by (simp add: suffix_ok_def)
      then obtain v where "v < 10" "2 \<le> v" "c = digit_char v" using digit_ex_ge2 by blast
      with Cons Nil show ?thesis by (intro exI [of _ v]) (simp add: decimal_small)
    next
      case (Cons c' cs')
      with \<open>d = c # cs\<close> ok have "canon d"
        by (simp add: suffix_ok_def canon_def ascii_digits_def)
      then obtain n where n: "0 < n" "d = decimal n" using canon_decimal by blast
      have "\<not> n < 10"
        using n(2) \<open>d = c # cs\<close> Cons by (auto simp: decimal_small)
      with n show ?thesis by (intro exI [of _ n]) simp
    qed
  qed
next
  assume "\<exists>n. 2 \<le> n \<and> d = decimal n"
  then obtain n where n: "2 \<le> n" "d = decimal n" by blast
  show "suffix_ok d"
  proof (cases "n < 10")
    case True
    with n show ?thesis
      using digit_char_ge2 [of n] by (simp add: decimal_small suffix_ok_def)
  next
    case False
    from n(1) have "canon (decimal n)" by (intro decimal_canon) simp
    moreover from False have "length (decimal n) \<noteq> 1" using decimal_length_one by blast
    ultimately show ?thesis
      unfolding n(2) canon_def suffix_ok_def
      by (cases "decimal n") (auto split: list.splits)
  qed
qed

lemma decimal_digits: "list_all (\<lambda>x. x \<in> set ascii_digits) (decimal n)"
proof (cases "n = 0")
  case True
  then show ?thesis by (simp add: decimal_small digit_char_def ascii_digits_def)
next
  case False
  then have "canon (decimal n)" by (intro decimal_canon) simp
  then show ?thesis by (simp add: canon_def)
qed

lemma suffix_ok_digits: "suffix_ok d \<Longrightarrow> c \<in> set d \<Longrightarrow> c \<in> set ascii_digits"
proof -
  assume "suffix_ok d" and c: "c \<in> set d"
  then obtain n where "d = decimal n" using suffix_ok_iff by blast
  then have "list_all (\<lambda>x. x \<in> set ascii_digits) d" by (simp add: decimal_digits)
  with c show ?thesis by (simp add: list_all_iff)
qed

lemma suffix_ok_no_underscore: "suffix_ok d \<Longrightarrow> CHR ''_'' \<notin> set d"
proof
  assume "suffix_ok d" and "CHR ''_'' \<in> set d"
  then have "CHR ''_'' \<in> set ascii_digits" by (rule suffix_ok_digits)
  then show False by (simp add: ascii_digits_def)
qed

lemma suffix_ok_no_newline: "suffix_ok d \<Longrightarrow> newline \<notin> set d"
proof
  assume "suffix_ok d" and "newline \<in> set d"
  then have "newline \<in> set ascii_digits" by (rule suffix_ok_digits)
  then show False by (simp add: ascii_digits_def newline_def)
qed

lemma suffix_ok_nonempty: "suffix_ok d \<Longrightarrow> d \<noteq> []"
  by (auto simp: suffix_ok_def)

lemma takeWhile_last_underscore:
  assumes "CHR ''_'' \<notin> set suf"
  shows "takeWhile (\<lambda>c. c \<noteq> CHR ''_'') (rev suf @ CHR ''_'' # rbase) = rev suf"
proof -
  have "takeWhile (\<lambda>c. c \<noteq> CHR ''_'') (rev suf @ CHR ''_'' # rbase)
      = rev suf @ takeWhile (\<lambda>c. c \<noteq> CHR ''_'') (CHR ''_'' # rbase)"
    by (rule takeWhile_append2) (use assms in auto)
  then show ?thesis by simp
qed

lemma no_trailing_newline:
  assumes "s \<noteq> [] \<longrightarrow> last s \<noteq> newline"
  shows "(if s \<noteq> [] \<and> last s = newline then butlast s else s) = s"
proof -
  from assms have "\<not> (s \<noteq> [] \<and> last s = newline)" by blast
  then show ?thesis by (simp only: if_False)
qed

lemma is_suffix_duplicate_intro:
  assumes "newline \<notin> set base" and "base \<noteq> []" and "suffix_ok suf"
  shows "is_suffix_duplicate_entity (base @ ''_'' @ suf) = (True, base)"
proof -
  let ?s = "base @ ''_'' @ suf"
  from assms(3) have nu: "CHR ''_'' \<notin> set suf" by (rule suffix_ok_no_underscore)
  from assms(3) have ne: "suf \<noteq> []" by (rule suffix_ok_nonempty)
  from assms(3) have nn: "newline \<notin> set suf" by (rule suffix_ok_no_newline)
  have "last ?s = last suf" using ne by simp
  moreover have "last suf \<in> set suf" using ne by simp
  ultimately have "last ?s \<noteq> newline" using nn by metis
  then have body: "(if ?s \<noteq> [] \<and> last ?s = newline then butlast ?s else ?s) = ?s"
    by (intro no_trailing_newline) simp
  have r: "rev ?s = rev suf @ CHR ''_'' # rev base" by simp
  have tw: "takeWhile (\<lambda>c. c \<noteq> CHR ''_'') (rev suf @ CHR ''_'' # rev base) = rev suf"
    using nu by (rule takeWhile_last_underscore)
  have dr: "drop (length (rev suf)) (rev suf @ CHR ''_'' # rev base) = CHR ''_'' # rev base"
    by simp
  show ?thesis
    unfolding is_suffix_duplicate_entity_def Let_def body r tw dr
    using assms by simp
qed

lemma is_suffix_duplicate_elim:
  assumes "fst (is_suffix_duplicate_entity s)" and "newline \<notin> set s"
  shows "\<exists>base suf. s = base @ ''_'' @ suf \<and> base \<noteq> [] \<and> suffix_ok suf
            \<and> is_suffix_duplicate_entity s = (True, base)"
proof -
  let ?rsuf = "takeWhile (\<lambda>c. c \<noteq> CHR ''_'') (rev s)"
  let ?rest = "drop (length ?rsuf) (rev s)"
  have "s \<noteq> [] \<longrightarrow> last s \<noteq> newline"
  proof
    assume "s \<noteq> []"
    then have "last s \<in> set s" by simp
    with assms(2) show "last s \<noteq> newline" by metis
  qed
  then have body: "(if s \<noteq> [] \<and> last s = newline then butlast s else s) = s"
    by (rule no_trailing_newline)
  have unf: "is_suffix_duplicate_entity s =
      (case ?rest of [] \<Rightarrow> (False, s)
       | u # rbase \<Rightarrow> if rbase \<noteq> [] \<and> newline \<notin> set rbase \<and> suffix_ok (rev ?rsuf)
                       then (True, rev rbase) else (False, s))"
    unfolding is_suffix_duplicate_entity_def Let_def body ..
  have rest: "?rest = dropWhile (\<lambda>c. c \<noteq> CHR ''_'') (rev s)"
    by (simp add: dropWhile_eq_drop)
  show ?thesis
  proof (cases ?rest)
    case Nil
    with assms(1) unf show ?thesis by simp
  next
    case (Cons u rbase)
    have "\<not> hd (dropWhile (\<lambda>c. c \<noteq> CHR ''_'') (rev s)) \<noteq> CHR ''_''"
      by (rule hd_dropWhile) (use Cons rest in simp)
    with Cons rest have u: "u = CHR ''_''" by simp
    have ok: "rbase \<noteq> [] \<and> newline \<notin> set rbase \<and> suffix_ok (rev ?rsuf)"
    proof (rule ccontr)
      assume "\<not> ?thesis"
      with unf Cons have "is_suffix_duplicate_entity s = (False, s)" by simp
      with assms(1) show False by simp
    qed
    have "rev s = ?rsuf @ ?rest" by (simp only: rest takeWhile_dropWhile_id)
    then have "rev s = ?rsuf @ CHR ''_'' # rbase" using Cons u by simp
    then have "rev (rev s) = rev (?rsuf @ CHR ''_'' # rbase)" by (rule arg_cong)
    then have s: "s = rev rbase @ ''_'' @ rev ?rsuf" by simp
    have res: "is_suffix_duplicate_entity s = (True, rev rbase)"
      using unf Cons ok by simp
    show ?thesis
      by (rule exI [of _ "rev rbase"], rule exI [of _ "rev ?rsuf"]) (use s res ok in simp)
  qed
qed

lemma suffix_duplicate_of_classified:
  assumes "newline \<notin> set entity_id" and "suffix_duplicate_of entity_id base"
  shows "is_suffix_duplicate_entity entity_id = (True, base)"
proof -
  from assms(2) obtain n where n: "base \<noteq> []" "2 \<le> n" "entity_id = base @ ''_'' @ decimal n"
    by (auto simp: suffix_duplicate_of_def)
  then have "suffix_ok (decimal n)" using suffix_ok_iff by blast
  moreover have "newline \<notin> set base" using assms(1) n(3) by simp
  ultimately show ?thesis
    using is_suffix_duplicate_intro [of base "decimal n"] n by simp
qed

lemma classified_suffix_duplicate_of:
  assumes "newline \<notin> set entity_id" and "fst (is_suffix_duplicate_entity entity_id)"
  shows "suffix_duplicate_of entity_id (snd (is_suffix_duplicate_entity entity_id))"
proof -
  from is_suffix_duplicate_elim [OF assms(2,1)]
  obtain base suf where b: "entity_id = base @ ''_'' @ suf" "base \<noteq> []" "suffix_ok suf"
    "is_suffix_duplicate_entity entity_id = (True, base)" by blast
  from b(3) obtain n where "2 \<le> n" "suf = decimal n" using suffix_ok_iff by blast
  with b show ?thesis by (auto simp: suffix_duplicate_of_def)
qed

text \<open>
  C8: an entity identifier (a single line) is classified as a suffix duplicate exactly when
  it is a non-empty base identifier followed by an underscore and the decimal numeral of an
  integer that is at least 2, and the base reported is that base. The suffix-duplicate pass
  proposes the removal of such an entity (confidence 0.9, approval required) exactly when
  that base is the identifier of an entity of the registry and the entity is not yet marked
  as removed; otherwise it leaves the planner as it is. \<open>sensor.kitchen_temp_2\<close> is
  classified with base \<open>sensor.kitchen_temp\<close>, and \<open>sensor.kitchen_temp_1\<close> is not
  classified.
\<close>

theorem suffix_duplicate_removal:
  assumes "newline \<notin> set entity_id"
  shows "(fst (is_suffix_duplicate_entity entity_id) \<longleftrightarrow> (\<exists>base. suffix_duplicate_of entity_id base))
    \<and> (suffix_duplicate_of entity_id base \<longrightarrow> is_suffix_duplicate_entity entity_id = (True, base))
    \<and> (e_entity_id er = Some entity_id \<and> suffix_duplicate_of entity_id base
          \<and> base \<in> set (entity_ids_of (f_entities d)) \<and> entity_id \<notin> planned_entity_remove s
        \<longrightarrow> suffix_duplicate_step fresh d er s =
              s\<lparr>actions := actions s @
                   [\<lparr>a_id = fresh (length (actions s)), a_type = ''remove_entity_registry_entry'',
                     a_payload = [(''entity_id'', Some entity_id)],
                     a_reason = ''Entity id looks like a suffix duplicate of '' @ quoted base @ ''.'',
                     a_confidence = 0.9, a_requires_approval = True\<rparr>],
                 planned_entity_remove := insert entity_id (planned_entity_remove s)\<rparr>)
    \<and> (e_entity_id er = Some entity_id
          \<and> \<not> (\<exists>b. suffix_duplicate_of entity_id b \<and> b \<in> set (entity_ids_of (f_entities d))
                   \<and> entity_id \<notin> planned_entity_remove s)
        \<longrightarrow> suffix_duplicate_step fresh d er s = s)
    \<and> is_suffix_duplicate_entity ''sensor.kitchen_temp_2'' = (True, ''sensor.kitchen_temp'')
    \<and> \<not> fst (is_suffix_duplicate_entity ''sensor.kitchen_temp_1'')"
proof (intro conjI impI)
  show "fst (is_suffix_duplicate_entity entity_id) \<longleftrightarrow> (\<exists>base. suffix_duplicate_of entity_id base)"
    using classified_suffix_duplicate_of [OF assms] suffix_duplicate_of_classified [OF assms]
    by (metis fst_conv)
next
  assume "suffix_duplicate_of entity_id base"
  with assms show "is_suffix_duplicate_entity entity_id = (True, base)"
    by (rule suffix_duplicate_of_classified)
next
  assume h: "e_entity_id er = Some entity_id \<and> suffix_duplicate_of entity_id base
          \<and> base \<in> set (entity_ids_of (f_entities d)) \<and> entity_id \<notin> planned_entity_remove s"
  then have c: "is_suffix_duplicate_entity entity_id = (True, base)"
    using suffix_duplicate_of_classified [OF assms] by blast
  from h have ne: "entity_id \<noteq> []" by (auto simp: suffix_duplicate_of_def)
  show "suffix_duplicate_step fresh d er s =
              s\<lparr>actions := actions s @
                   [\<lparr>a_id = fresh (length (actions s)), a_type = ''remove_entity_registry_entry'',
                     a_payload = [(''entity_id'', Some entity_id)],
                     a_reason = ''Entity id looks like a suffix duplicate of '' @ quoted base @ ''.'',
                     a_confidence = 0.9, a_requires_approval = True\<rparr>],
                 planned_entity_remove := insert entity_id (planned_entity_remove s)\<rparr>"
    using h c ne
    by (simp add: suffix_duplicate_step_def Let_def truthy_def str_or_empty_def emit_def)
next
  assume h: "e_entity_id er = Some entity_id
          \<and> \<not> (\<exists>b. suffix_duplicate_of entity_id b \<and> b \<in> set (entity_ids_of (f_entities d))
                   \<and> entity_id \<notin> planned_entity_remove s)"
  obtain dup b where r: "is_suffix_duplicate_entity entity_id = (dup, b)"
    by (cases "is_suffix_duplicate_entity entity_id")
  have "dup \<Longrightarrow> suffix_duplicate_of entity_id b"
    using classified_suffix_duplicate_of [OF assms] r by simp
  with h have "entity_id \<in> planned_entity_remove s \<or> \<not> dup \<or> b \<notin> set (entity_ids_of (f_entities d))"
    by blast
  with h r show "suffix_duplicate_step fresh d er s = s"
    by (auto simp: suffix_duplicate_step_def Let_def truthy_def str_or_empty_def)
next
  show "is_suffix_duplicate_entity ''sensor.kitchen_temp_2'' = (True, ''sensor.kitchen_temp'')"
    by (simp add: is_suffix_duplicate_entity_def newline_def suffix_ok_def)
next
  show "\<not> fst (is_suffix_duplicate_entity ''sensor.kitchen_temp_1'')"
    by (simp add: is_suffix_duplicate_entity_def newline_def suffix_ok_def)
qed

lemma decimal_0: "decimal 0 = ''0''"
  by (subst decimal.simps) (simp add: digit_char_def ascii_digits_def)

lemma decimal_2: "decimal 2 = ''2''"
  by (subst decimal.simps) (simp add: digit_char_def ascii_digits_def)

theorem suffix_duplicate_removal_witness:
  "suffix_duplicate_step numbering kitchen
       (mk_entity ''sensor.kitchen_temp_2'' None (Some ''kitchen'')) initial_planner
     = initial_planner\<lparr>actions :=
           [\<lparr>a_id = ''id-0'', a_type = ''remove_entity_registry_entry'',
             a_payload = [(''entity_id'', Some ''sensor.kitchen_temp_2'')],
             a_reason = ''Entity id looks like a suffix duplicate of '' @ quoted ''sensor.kitchen_temp'' @ ''.'',
             a_confidence = 0.9, a_requires_approval = True\<rparr>],
         planned_entity_remove := {''sensor.kitchen_temp_2''}\<rparr>
   \<and> suffix_duplicate_step numbering
         (kitchen\<lparr>f_entities := [mk_entity ''sensor.kitchen_temp_2'' None (Some ''kitchen'')]\<rparr>)
         (mk_entity ''sensor.kitchen_temp_2'' None (Some ''kitchen'')) initial_planner
       = initial_planner"
proof -
  let ?e = "''sensor.kitchen_temp_2''" and ?b = "''sensor.kitchen_temp''"
  let ?er = "mk_entity ?e None (Some ''kitchen'')"
  have nl: "newline \<notin> set ?e" by (simp add: newline_def)
  have dup: "suffix_duplicate_of ?e ?b"
    unfolding suffix_duplicate_of_def
    by (intro conjI exI [of _ 2]) (simp_all add: decimal_2)
  have ids: "?b \<in> set (entity_ids_of (f_entities kitchen))"
    by (simp add: kitchen_def entity_ids_of_def mk_entity_def truthy_def str_or_empty_def)
  have fresh: "?e \<notin> planned_entity_remove initial_planner"
    by (simp add: initial_planner_def)
  have er: "e_entity_id ?er = Some ?e" by (simp add: mk_entity_def)
  note t = suffix_duplicate_removal [OF nl, where base = ?b and er = ?er and s = initial_planner
      and fresh = numbering]
  have one: "suffix_duplicate_step numbering kitchen ?er initial_planner
     = initial_planner\<lparr>actions := actions initial_planner @
           [\<lparr>a_id = numbering (length (actions initial_planner)),
             a_type = ''remove_entity_registry_entry'',
             a_payload = [(''entity_id'', Some ?e)],
             a_reason = ''Entity id looks like a suffix duplicate of '' @ quoted ?b @ ''.'',
             a_confidence = 0.9, a_requires_approval = True\<rparr>],
         planned_entity_remove := insert ?e (planned_entity_remove initial_planner)\<rparr>"
    using t [where d = kitchen, THEN conjunct2, THEN conjunct2, THEN conjunct1] er dup ids fresh
    by blast
  let ?d = "kitchen\<lparr>f_entities := [?er]\<rparr>"
  have none: "\<not> (\<exists>b. suffix_duplicate_of ?e b \<and> b \<in> set (entity_ids_of (f_entities ?d))
                   \<and> ?e \<notin> planned_entity_remove initial_planner)"
    by (auto simp: suffix_duplicate_of_def entity_ids_of_def mk_entity_def truthy_def str_or_empty_def)
  have two: "suffix_duplicate_step numbering ?d ?er initial_planner = initial_planner"
    using t [where d = ?d, THEN conjunct2, THEN conjunct2, THEN conjunct2, THEN conjunct1] er none
    by blast
  show ?thesis
    unfolding two one by (simp add: initial_planner_def numbering_def decimal_0)
qed

section \<open>Token-match area inference\<close>

lemmas tokenize_eval = tokenize_def lower_def strip_def is_space_def lower_char_def
  ascii_upper_def ascii_lower_def ascii_digits_def is_sep_def

lemma living_room_tokens: "tokenize ''Living Room'' = {''living'', ''room''}"
  by (simp add: tokenize_eval)

lemma area_matches_iff:
  "(area_id, area_name) \<in> set (area_matches (area_tokens_of areas) ht) \<longleftrightarrow>
     (\<exists>a \<in> set areas. ar_area_id a = Some area_id \<and> area_id \<noteq> []
          \<and> ar_name a = Some area_name \<and> area_name \<noteq> []
          \<and> tokenize area_name \<noteq> {} \<and> tokenize area_name \<subseteq> ht)"
proof
  assume "(area_id, area_name) \<in> set (area_matches (area_tokens_of areas) ht)"
  then obtain a where a: "a \<in> set areas" "truthy (ar_area_id a)" "truthy (ar_name a)"
      "area_id = str_or_empty (ar_area_id a)" "area_name = str_or_empty (ar_name a)"
      "tokenize (str_or_empty (ar_name a)) \<noteq> {}" "tokenize (str_or_empty (ar_name a)) \<subseteq> ht"
    unfolding area_matches_def area_tokens_of_def by auto
  from a(2,4) have "ar_area_id a = Some area_id" "area_id \<noteq> []"
    by (cases "ar_area_id a"; simp add: truthy_def str_or_empty_def)+
  moreover from a(3,5) have "ar_name a = Some area_name" "area_name \<noteq> []"
    by (cases "ar_name a"; simp add: truthy_def str_or_empty_def)+
  ultimately show "\<exists>a \<in> set areas. ar_area_id a = Some area_id \<and> area_id \<noteq> []
          \<and> ar_name a = Some area_name \<and> area_name \<noteq> []
          \<and> tokenize area_name \<noteq> {} \<and> tokenize area_name \<subseteq> ht"
    using a(1,5,6,7) by blast
next
  assume "\<exists>a \<in> set areas. ar_area_id a = Some area_id \<and> area_id \<noteq> []
          \<and> ar_name a = Some area_name \<and> area_name \<noteq> []
          \<and> tokenize area_name \<noteq> {} \<and> tokenize area_name \<subseteq> ht"
  then obtain a where a: "a \<in> set areas" "ar_area_id a = Some area_id" "area_id \<noteq> []"
      "ar_name a = Some area_name" "area_name \<noteq> []"
      "tokenize area_name \<noteq> {}" "tokenize area_name \<subseteq> ht"
    by blast
  have "(area_id, area_name, tokenize area_name) \<in> set (area_tokens_of areas)"
    unfolding area_tokens_of_def set_map
  proof (rule image_eqI [where x = a])
    show "(area_id, area_name, tokenize area_name) =
        (str_or_empty (ar_area_id a), str_or_empty (ar_name a), tokenize (str_or_empty (ar_name a)))"
      using a by (simp add: str_or_empty_def)
    show "a \<in> set (filter (\<lambda>a. truthy (ar_area_id a) \<and> truthy (ar_name a)) areas)"
      using a by (simp add: truthy_def)
  qed
  with a(6,7) show "(area_id, area_name) \<in> set (area_matches (area_tokens_of areas) ht)"
    unfolding area_matches_def by force
qed

lemma token_match_step_eligible:
  assumes "e_entity_id er = Some entity_id" and "entity_id \<noteq> []"
    and "entity_id \<notin> planned_entity_area s" and "entity_id \<notin> planned_entity_remove s"
    and "active d entity_id" and "\<not> truthy (e_area_id er)"
    and "\<not> (truthy (e_device_id er) \<and> truthy (device_area_of d er))"
  shows "token_match_step fresh fallback d er s =
     (let matches = area_matches (area_tokens_of (f_areas d)) (tokenize (haystack d er)) in
      if length matches = 1 then
        (emit fresh ''set_entity_area''
           [(''entity_id'', Some entity_id), (''area_id'', Some (fst (hd matches)))]
           (''Token match to area name '' @ quoted (snd (hd matches)) @ '' from entity metadata.'')
           0.95 False s)
        \<lparr>planned_entity_area := insert entity_id (planned_entity_area s)\<rparr>
      else if fallback then s\<lparr>needs_fallback_onbekend := True\<rparr> else s)"
proof -
  have gate: "(truthy (e_device_id er) \<and> truthy (device_area_of d er)) = False"
    using assms(7) by blast
  have t: "truthy (e_entity_id er)" "str_or_empty (e_entity_id er) = entity_id"
    using assms(1,2) by (simp_all add: truthy_def str_or_empty_def)
  show ?thesis
    using assms(3-6)
    by (simp add: token_match_step_def Let_def t gate)
qed

text \<open>
  C7: in the token-match pass a grouping is a candidate for a haystack exactly when it has an
  identifier and a name and the token set of its name is non-empty and contained in the
  token set of the haystack. \<open>Living Room\<close> tokenizes to \<open>living\<close> and \<open>room\<close>, so it
  matches exactly the haystacks whose tokens hold both. For an entity the pass reaches
  (active, without area, its device without area, not yet planned), exactly one candidate
  makes the pass emit \<open>set_entity_area\<close> into that grouping with confidence 0.95 and no
  approval; any other number of candidates emits nothing and, with the fallback requested,
  marks that the fallback is needed.
\<close>

theorem token_match_inference:
  "((area_id, area_name) \<in> set (area_matches (area_tokens_of areas) (tokenize hay)) \<longleftrightarrow>
      (\<exists>a \<in> set areas. ar_area_id a = Some area_id \<and> area_id \<noteq> []
          \<and> ar_name a = Some area_name \<and> area_name \<noteq> []
          \<and> tokenize area_name \<noteq> {} \<and> tokenize area_name \<subseteq> tokenize hay))
   \<and> tokenize ''Living Room'' = {''living'', ''room''}
   \<and> (tokenize ''Living Room'' \<subseteq> tokenize hay \<longleftrightarrow> ''living'' \<in> tokenize hay \<and> ''room'' \<in> tokenize hay)
   \<and> (e_entity_id er = Some entity_id \<and> entity_id \<noteq> []
        \<and> entity_id \<notin> planned_entity_area s \<and> entity_id \<notin> planned_entity_remove s
        \<and> active d entity_id \<and> \<not> truthy (e_area_id er)
        \<and> \<not> (truthy (e_device_id er) \<and> truthy (device_area_of d er))
        \<and> area_matches (area_tokens_of (f_areas d)) (tokenize (haystack d er)) = [(area_id, area_name)]
      \<longrightarrow> token_match_step fresh fallback d er s =
            s\<lparr>actions := actions s @
                 [\<lparr>a_id = fresh (length (actions s)), a_type = ''set_entity_area'',
                   a_payload = [(''entity_id'', Some entity_id), (''area_id'', Some area_id)],
                   a_reason = ''Token match to area name '' @ quoted area_name @ '' from entity metadata.'',
                   a_confidence = 0.95, a_requires_approval = False\<rparr>],
               planned_entity_area := insert entity_id (planned_entity_area s)\<rparr>)
   \<and> (e_entity_id er = Some entity_id \<and> entity_id \<noteq> []
        \<and> entity_id \<notin> planned_entity_area s \<and> entity_id \<notin> planned_entity_remove s
        \<and> active d entity_id \<and> \<not> truthy (e_area_id er)
        \<and> \<not> (truthy (e_device_id er) \<and> truthy (device_area_of d er))
        \<and> length (area_matches (area_tokens_of (f_areas d)) (tokenize (haystack d er))) \<noteq> 1
      \<longrightarrow> actions (token_match_step fresh fallback d er s) = actions s
          \<and> needs_fallback_onbekend (token_match_step fresh fallback d er s)
               = (fallback \<or> needs_fallback_onbekend s))"
proof (intro conjI impI)
  show "(area_id, area_name) \<in> set (area_matches (area_tokens_of areas) (tokenize hay)) \<longleftrightarrow>
      (\<exists>a \<in> set areas. ar_area_id a = Some area_id \<and> area_id \<noteq> []
          \<and> ar_name a = Some area_name \<and> area_name \<noteq> []
          \<and> tokenize area_name \<noteq> {} \<and> tokenize area_name \<subseteq> tokenize hay)"
    by (rule area_matches_iff)
next
  show "tokenize ''Living Room'' = {''living'', ''room''}"
    by (rule living_room_tokens)
next
  show "tokenize ''Living Room'' \<subseteq> tokenize hay \<longleftrightarrow> ''living'' \<in> tokenize hay \<and> ''room'' \<in> tokenize hay"
    unfolding living_room_tokens by simp
next
  assume h: "e_entity_id er = Some entity_id \<and> entity_id \<noteq> []
        \<and> entity_id \<notin> planned_entity_area s \<and> entity_id \<notin> planned_entity_remove s
        \<and> active d entity_id \<and> \<not> truthy (e_area_id er)
        \<and> \<not> (truthy (e_device_id er) \<and> truthy (device_area_of d er))
        \<and> area_matches (area_tokens_of (f_areas d)) (tokenize (haystack d er)) = [(area_id, area_name)]"
  then have "token_match_step fresh fallback d er s =
     (let matches = area_matches (area_tokens_of (f_areas d)) (tokenize (haystack d er)) in
      if length matches = 1 then
        (emit fresh ''set_entity_area''
           [(''entity_id'', Some entity_id), (''area_id'', Some (fst (hd matches)))]
           (''Token match to area name '' @ quoted (snd (hd matches)) @ '' from entity metadata.'')
           0.95 False s)
        \<lparr>planned_entity_area := insert entity_id (planned_entity_area s)\<rparr>
      else if fallback then s\<lparr>needs_fallback_onbekend := True\<rparr> else s)"
    by (intro token_match_step_eligible) simp_all
  with h show "token_match_step fresh fallback d er s =
            s\<lparr>actions := actions s @
                 [\<lparr>a_id = fresh (length (actions s)), a_type = ''set_entity_area'',
                   a_payload = [(''entity_id'', Some entity_id), (''area_id'', Some area_id)],
                   a_reason = ''Token match to area name '' @ quoted area_name @ '' from entity metadata.'',
                   a_confidence = 0.95, a_requires_approval = False\<rparr>],
               planned_entity_area := insert entity_id (planned_entity_area s)\<rparr>"
    by (simp add: emit_def)
next
  assume h: "e_entity_id er = Some entity_id \<and> entity_id \<noteq> []
        \<and> entity_id \<notin> planned_entity_area s \<and> entity_id \<notin> planned_entity_remove s
        \<and> active d entity_id \<and> \<not> truthy (e_area_id er)
        \<and> \<not> (truthy (e_device_id er) \<and> truthy (device_area_of d er))
        \<and> length (area_matches (area_tokens_of (f_areas d)) (tokenize (haystack d er))) \<noteq> 1"
  then have eq: "token_match_step fresh fallback d er s =
     (let matches = area_matches (area_tokens_of (f_areas d)) (tokenize (haystack d er)) in
      if length matches = 1 then
        (emit fresh ''set_entity_area''
           [(''entity_id'', Some entity_id), (''area_id'', Some (fst (hd matches)))]
           (''Token match to area name '' @ quoted (snd (hd matches)) @ '' from entity metadata.'')
           0.95 False s)
        \<lparr>planned_entity_area := insert entity_id (planned_entity_area s)\<rparr>
      else if fallback then s\<lparr>needs_fallback_onbekend := True\<rparr> else s)"
    by (intro token_match_step_eligible) simp_all
  from h eq show "actions (token_match_step fresh fallback d er s) = actions s"
    by simp
  from h eq show "needs_fallback_onbekend (token_match_step fresh fallback d er s)
               = (fallback \<or> needs_fallback_onbekend s)"
    by simp
qed

lemma kitchen_area_tokens:
  "area_tokens_of (f_areas kitchen) =
     [(''living_room'', ''Living Room'', {''living'', ''room''}),
      (''kitchen'', ''Kitchen'', {''kitchen''})]"
  by (simp add: area_tokens_of_def kitchen_def truthy_def str_or_empty_def tokenize_eval)

lemma lamp_tokens:
  "tokenize (haystack kitchen (mk_entity ''light.living_room_lamp'' None None))
     = {''light'', ''living'', ''room'', ''lamp''}"
  by (simp add: haystack_def join_spaces_def mk_entity_def str_or_empty_def before_of_def
      kitchen_def by_key_def dict_of_def truthy_def active_state_def tokenize_eval)

lemma temp_tokens:
  "tokenize (haystack kitchen (mk_entity ''sensor.living_temp'' None None))
     = {''sensor'', ''living'', ''temp''}"
  by (simp add: haystack_def join_spaces_def mk_entity_def str_or_empty_def before_of_def
      kitchen_def by_key_def dict_of_def truthy_def active_state_def tokenize_eval)

lemma kitchen_active:
  "active kitchen ''light.living_room_lamp''" "active kitchen ''sensor.living_temp''"
  by (simp_all add: active_def is_active_state_def kitchen_def by_key_def dict_of_def truthy_def
      str_or_empty_def active_state_def)

theorem token_match_inference_witness:
  "token_match_step numbering False kitchen (mk_entity ''light.living_room_lamp'' None None)
       initial_planner
     = initial_planner\<lparr>actions :=
           [\<lparr>a_id = ''id-0'', a_type = ''set_entity_area'',
             a_payload = [(''entity_id'', Some ''light.living_room_lamp''),
                          (''area_id'', Some ''living_room'')],
             a_reason = ''Token match to area name '' @ quoted ''Living Room'' @ '' from entity metadata.'',
             a_confidence = 0.95, a_requires_approval = False\<rparr>],
         planned_entity_area := {''light.living_room_lamp''}\<rparr>
   \<and> actions (token_match_step numbering False kitchen (mk_entity ''sensor.living_temp'' None None)
         initial_planner) = []"
proof -
  let ?lamp = "mk_entity ''light.living_room_lamp'' None None"
  let ?temp = "mk_entity ''sensor.living_temp'' None None"
  have m1: "area_matches (area_tokens_of (f_areas kitchen)) (tokenize (haystack kitchen ?lamp))
      = [(''living_room'', ''Living Room'')]"
    unfolding kitchen_area_tokens lamp_tokens by (simp add: area_matches_def)
  have m2: "length (area_matches (area_tokens_of (f_areas kitchen)) (tokenize (haystack kitchen ?temp))) \<noteq> 1"
    unfolding kitchen_area_tokens temp_tokens by (simp add: area_matches_def)
  have e1: "e_entity_id ?lamp = Some ''light.living_room_lamp'' \<and> ''light.living_room_lamp'' \<noteq> []
        \<and> ''light.living_room_lamp'' \<notin> planned_entity_area initial_planner
        \<and> ''light.living_room_lamp'' \<notin> planned_entity_remove initial_planner
        \<and> active kitchen ''light.living_room_lamp'' \<and> \<not> truthy (e_area_id ?lamp)
        \<and> \<not> (truthy (e_device_id ?lamp) \<and> truthy (device_area_of kitchen ?lamp))"
    using kitchen_active(1) by (simp add: mk_entity_def initial_planner_def truthy_def)
  have e2: "e_entity_id ?temp = Some ''sensor.living_temp'' \<and> ''sensor.living_temp'' \<noteq> []
        \<and> ''sensor.living_temp'' \<notin> planned_entity_area initial_planner
        \<and> ''sensor.living_temp'' \<notin> planned_entity_remove initial_planner
        \<and> active kitchen ''sensor.living_temp'' \<and> \<not> truthy (e_area_id ?temp)
        \<and> \<not> (truthy (e_device_id ?temp) \<and> truthy (device_area_of kitchen ?temp))"
    using kitchen_active(2) by (simp add: mk_entity_def initial_planner_def truthy_def)
  note t1 = token_match_inference [where er = ?lamp and entity_id = "''light.living_room_lamp''"
      and s = initial_planner and d = kitchen and area_id = "''living_room''"
      and area_name = "''Living Room''" and fresh = numbering and fallback = False,
      THEN conjunct2, THEN conjunct2, THEN conjunct2, THEN conjunct1]
  note t2 = token_match_inference [where er = ?temp and entity_id = "''sensor.living_temp''"
      and s = initial_planner and d = kitchen and fresh = numbering and fallback = False,
      THEN conjunct2, THEN conjunct2, THEN conjunct2, THEN conjunct2]
  have one: "token_match_step numbering False kitchen ?lamp initial_planner =
            initial_planner\<lparr>actions := actions initial_planner @
                 [\<lparr>a_id = numbering (length (actions initial_planner)), a_type = ''set_entity_area'',
                   a_payload = [(''entity_id'', Some ''light.living_room_lamp''), (''area_id'', Some ''living_room'')],
                   a_reason = ''Token match to area name '' @ quoted ''Living Room'' @ '' from entity metadata.'',
                   a_confidence = 0.95, a_requires_approval = False\<rparr>],
               planned_entity_area := insert ''light.living_room_lamp'' (planned_entity_area initial_planner)\<rparr>"
    using t1 e1 m1 by blast
  have two: "actions (token_match_step numbering False kitchen ?temp initial_planner)
      = actions initial_planner"
    using t2 e2 m2 by blast
  show ?thesis
    unfolding one two by (simp add: initial_planner_def numbering_def decimal_0)
qed

section \<open>How the passes extend the plan\<close>

lemma advance_refl: "advance s s"
  by (simp add: advance_def)

lemma advance_trans: "advance s s' \<Longrightarrow> advance s' s'' \<Longrightarrow> advance s s''"
  by (simp add: advance_def)

lemma emission_advance: "emission s s' \<Longrightarrow> advance s s'"
  by (simp add: advance_def r_into_rtranclp)

lemma silent_advance: "silent s s' \<Longrightarrow> advance s s'"
  by (simp add: advance_def r_into_rtranclp)

lemma advance_fold:
  assumes "\<And>x s. advance s (f x s)"
  shows "advance s (fold f xs s)"
proof (induction xs arbitrary: s)
  case Nil
  show ?case by (simp add: advance_refl)
next
  case (Cons x xs)
  have "advance s (f x s)" by (rule assms)
  moreover have "advance (f x s) (fold f xs (f x s))" by (rule Cons.IH)
  ultimately show ?case by (simp add: advance_trans)
qed

lemma target_entity: "target (x\<lparr>a_payload := (''entity_id'', Some e) # p\<rparr>) = e"
  by (simp add: target_def py_get_def str_or_empty_def)

lemma emit_other:
  assumes "t \<noteq> ''remove_entity_registry_entry''" and "t \<noteq> ''hide_entity''" and "t \<noteq> ''set_entity_area''"
  shows "emission s (emit fresh t p reason conf req s)"
  unfolding emission_def
  by (rule exI [of _ "\<lparr>a_id = fresh (length (actions s)), a_type = t, a_payload = p,
            a_reason = reason, a_confidence = conf, a_requires_approval = req\<rparr>"])
     (use assms in \<open>simp add: emit_def same_markers_def\<close>)

lemma emit_remove:
  assumes "e \<notin> planned_entity_remove s"
  shows "emission s ((emit fresh ''remove_entity_registry_entry'' [(''entity_id'', Some e)] reason conf req s)
            \<lparr>planned_entity_remove := insert e (planned_entity_remove s)\<rparr>)"
  unfolding emission_def
  by (rule exI [of _ "\<lparr>a_id = fresh (length (actions s)), a_type = ''remove_entity_registry_entry'',
            a_payload = [(''entity_id'', Some e)],
            a_reason = reason, a_confidence = conf, a_requires_approval = req\<rparr>"])
     (use assms in \<open>simp add: emit_def target_def py_get_def str_or_empty_def\<close>)

lemma emit_hide:
  assumes "e \<notin> planned_entity_hide s" and "conf = 0.9 \<longrightarrow> e \<notin> planned_entity_remove s"
  shows "emission s ((emit fresh ''hide_entity'' [(''entity_id'', Some e), (''hidden_by'', Some ''user'')]
              reason conf req s)
            \<lparr>planned_entity_hide := insert e (planned_entity_hide s)\<rparr>)"
  unfolding emission_def
  by (rule exI [of _ "\<lparr>a_id = fresh (length (actions s)), a_type = ''hide_entity'',
            a_payload = [(''entity_id'', Some e), (''hidden_by'', Some ''user'')],
            a_reason = reason, a_confidence = conf, a_requires_approval = req\<rparr>"])
     (use assms in \<open>simp add: emit_def target_def py_get_def str_or_empty_def\<close>)

lemma emit_place:
  assumes "e \<notin> planned_entity_remove s" and "conf \<noteq> 0.85"
  shows "emission s ((emit fresh ''set_entity_area'' [(''entity_id'', Some e), (''area_id'', ar)]
              reason conf req s)
            \<lparr>planned_entity_area := insert e (planned_entity_area s)\<rparr>)"
  unfolding emission_def
  by (rule exI [of _ "\<lparr>a_id = fresh (length (actions s)), a_type = ''set_entity_area'',
            a_payload = [(''entity_id'', Some e), (''area_id'', ar)],
            a_reason = reason, a_confidence = conf, a_requires_approval = req\<rparr>"])
     (use assms in \<open>simp add: emit_def target_def py_get_def str_or_empty_def\<close>)

lemma emit_keyword:
  assumes "e \<notin> planned_entity_area s" and "conf = 0.85"
  shows "emission s (emit fresh ''set_entity_area'' [(''entity_id'', Some e), (''area_id'', ar)]
              reason conf req s)"
  unfolding emission_def
  by (rule exI [of _ "\<lparr>a_id = fresh (length (actions s)), a_type = ''set_entity_area'',
            a_payload = [(''entity_id'', Some e), (''area_id'', ar)],
            a_reason = reason, a_confidence = conf, a_requires_approval = req\<rparr>"])
     (use assms in \<open>simp add: emit_def target_def py_get_def str_or_empty_def\<close>)

lemmas advance_simps = advance_refl emission_advance emit_other emit_remove emit_hide emit_place
  emit_keyword

lemma rename_area_step_advance: "advance s (rename_area_step fresh d r s)"
  by (simp add: rename_area_step_def Let_def advance_simps)

lemma remove_id_step_advance: "advance s (remove_id_step fresh d eid s)"
  by (simp add: remove_id_step_def advance_simps)

lemma remove_match_step_advance: "advance s (remove_match_step fresh rx pat req eid s)"
  by (simp add: remove_match_step_def advance_simps)

lemma remove_regex_step_advance: "advance s (remove_regex_step fresh lib d rr s)"
  by (simp add: remove_regex_step_def Let_def advance_refl advance_fold remove_match_step_advance
      split: option.splits)

lemma hide_id_step_advance: "advance s (hide_id_step fresh d eid s)"
  by (simp add: hide_id_step_def advance_simps)

lemma hide_match_step_advance: "advance s (hide_match_step fresh rx pat req eid s)"
  by (simp add: hide_match_step_def advance_simps)

lemma hide_regex_step_advance: "advance s (hide_regex_step fresh lib d rr s)"
  by (simp add: hide_regex_step_def Let_def advance_refl advance_fold hide_match_step_advance
      split: option.splits)

lemma inherit_step_advance: "advance s (inherit_step fresh d er s)"
  by (simp add: inherit_step_def Let_def advance_simps)

lemma device_backfill_step_advance: "advance s (device_backfill_step fresh d dv s)"
  by (simp add: device_backfill_step_def Let_def advance_simps)

lemma needs_fallback_silent: "advance s (s\<lparr>needs_fallback_onbekend := b\<rparr>)"
  by (rule silent_advance) (simp add: silent_def same_markers_def)

lemma token_match_step_advance: "advance s (token_match_step fresh fallback d er s)"
  by (simp add: token_match_step_def Let_def advance_simps needs_fallback_silent)

lemma create_fallback_area_advance: "advance s (create_fallback_area fresh name fallback d s)"
  by (simp add: create_fallback_area_def advance_simps)

lemma fallback_step_advance: "advance s (fallback_step fresh name aid d er s)"
  by (simp add: fallback_step_def Let_def advance_simps)

lemma fallback_placement_advance: "advance s (fallback_placement fresh name fallback d s)"
  by (simp add: fallback_placement_def Let_def advance_refl advance_fold fallback_step_advance)

lemma suffix_duplicate_step_advance: "advance s (suffix_duplicate_step fresh d er s)"
  by (simp add: suffix_duplicate_step_def Let_def advance_simps split: prod.splits)

lemma unique_hide_step_advance: "advance s (unique_hide_step fresh uid kept eid s)"
  by (simp add: unique_hide_step_def advance_simps)

lemma unique_group_step_advance: "advance s (unique_group_step fresh g s)"
  by (simp add: unique_group_step_def advance_refl advance_fold unique_hide_step_advance
      split: prod.splits)

lemma entity_area_match_step_advance:
  "advance s (entity_area_match_step fresh d rx pat area_name req overwrite t er s)"
  by (simp add: entity_area_match_step_def Let_def advance_simps)

lemma entity_area_rule_step_advance: "advance s (entity_area_rule_step fresh lib d rr s)"
  by (simp add: entity_area_rule_step_def Let_def advance_refl advance_fold
      entity_area_match_step_advance split: option.splits)

lemma device_area_match_step_advance:
  "advance s (device_area_match_step fresh rx pat area_name req overwrite t dv s)"
  by (simp add: device_area_match_step_def Let_def advance_simps)

lemma device_area_rule_step_advance: "advance s (device_area_rule_step fresh lib d rr s)"
  by (simp add: device_area_rule_step_def Let_def advance_refl advance_fold
      device_area_match_step_advance split: option.splits)

lemma helper_step_advance: "advance s (helper_step fresh d hrules er s)"
  by (simp add: helper_step_def Let_def advance_simps split: option.splits)

lemma media_rename_step_advance: "advance s (media_rename_step fresh base area_name need item s)"
  by (simp add: media_rename_step_def Let_def advance_simps split: prod.splits)

lemma media_group_step_advance: "advance s (media_group_step fresh d g s)"
  by (simp add: media_group_step_def Let_def advance_fold media_rename_step_advance
      split: prod.splits)

lemma advance_actions: "advance s s' \<Longrightarrow> \<exists>ys. actions s' = actions s @ ys"
  unfolding advance_def
proof (induction rule: rtranclp_induct)
  case base
  show ?case by simp
next
  case (step y z)
  from step.IH obtain ys where ys: "actions y = actions s @ ys" by blast
  from step.hyps(2) show ?case
  proof
    assume "emission y z"
    then obtain a where "actions z = actions y @ [a]" by (auto simp: emission_def)
    with ys show ?thesis by simp
  next
    assume "silent y z"
    with ys show ?thesis by (simp add: silent_def)
  qed
qed

lemma advance_subset: "advance s s' \<Longrightarrow> set (actions s) \<subseteq> set (actions s')"
  using advance_actions [of s s'] by auto

lemma explicit_passes_advance: "advance s (explicit_passes cfg r d s)"
  unfolding explicit_passes_def Let_def
  by (intro advance_trans [OF advance_fold advance_trans [OF advance_fold
        advance_trans [OF advance_fold advance_trans [OF advance_fold advance_fold]]]]
      rename_area_step_advance remove_id_step_advance remove_regex_step_advance
      hide_id_step_advance hide_regex_step_advance)

lemma area_passes_advance: "advance s (area_passes cfg fallback d s)"
  unfolding area_passes_def Let_def
  by (intro advance_trans [OF advance_fold advance_trans [OF advance_fold
        advance_trans [OF needs_fallback_silent advance_trans [OF advance_fold
          create_fallback_area_advance]]]]
      inherit_step_advance device_backfill_step_advance token_match_step_advance)

lemma duplicate_passes_advance: "advance s (duplicate_passes cfg d s)"
  unfolding duplicate_passes_def Let_def
  by (intro advance_trans [OF advance_fold advance_fold]
      suffix_duplicate_step_advance unique_group_step_advance)

lemma rule_passes_advance: "advance s (rule_passes cfg r d s)"
  unfolding rule_passes_def Let_def
  by (intro advance_trans [OF advance_fold advance_trans [OF advance_fold advance_fold]]
      entity_area_rule_step_advance device_area_rule_step_advance helper_step_advance)

lemma media_pass_advance: "advance s (media_pass cfg d s)"
  unfolding media_pass_def
  by (intro advance_fold media_group_step_advance)

lemma later_passes_advance:
  "advance s (media_pass cfg d (rule_passes cfg r d (duplicate_passes cfg d s)))"
  by (intro advance_trans [OF duplicate_passes_advance
        advance_trans [OF rule_passes_advance media_pass_advance]])

lemma run_passes_advance: "advance initial_planner (run_passes cfg fallback r d)"
  unfolding run_passes_def
  by (intro advance_trans [OF explicit_passes_advance advance_trans [OF area_passes_advance
        advance_trans [OF fallback_placement_advance later_passes_advance]]])

section \<open>Fallback placement\<close>

lemma lost_explicit: "explicit_passes plain_config no_rules lost_sensor initial_planner = initial_planner"
  by (simp add: explicit_passes_def no_rules_def Let_def)

lemma lost_active: "active lost_sensor ''sensor.lost''"
  by (simp add: active_def is_active_state_def lost_sensor_def by_key_def dict_of_def truthy_def
      str_or_empty_def active_state_def)

lemma lost_tokens:
  "tokenize (haystack lost_sensor (mk_entity ''sensor.lost'' None None)) = {''sensor'', ''lost''}"
  by (simp add: haystack_def join_spaces_def mk_entity_def str_or_empty_def before_of_def
      lost_sensor_def by_key_def dict_of_def truthy_def active_state_def tokenize_eval)

lemma lost_area_tokens:
  "area_tokens_of (f_areas lost_sensor) = [(''kitchen'', ''Kitchen'', {''kitchen''})]"
  by (simp add: area_tokens_of_def lost_sensor_def truthy_def str_or_empty_def tokenize_eval)

lemma lost_entities: "f_entities lost_sensor = [mk_entity ''sensor.lost'' None None]"
  "f_devices lost_sensor = []"
  by (simp_all add: lost_sensor_def)

lemma lost_inherit:
  "inherit_step numbering lost_sensor (mk_entity ''sensor.lost'' None None) initial_planner = initial_planner"
  using lost_active
  by (simp add: inherit_step_def Let_def mk_entity_def truthy_def str_or_empty_def initial_planner_def)

lemma lost_token:
  "token_match_step numbering True lost_sensor (mk_entity ''sensor.lost'' None None)
     (initial_planner\<lparr>needs_fallback_onbekend := False\<rparr>)
   = initial_planner\<lparr>needs_fallback_onbekend := True\<rparr>"
proof -
  have m: "area_matches (area_tokens_of (f_areas lost_sensor))
      (tokenize (haystack lost_sensor (mk_entity ''sensor.lost'' None None))) = []"
    unfolding lost_area_tokens lost_tokens by (simp add: area_matches_def)
  have e: "truthy (e_entity_id (mk_entity ''sensor.lost'' None None))"
    "str_or_empty (e_entity_id (mk_entity ''sensor.lost'' None None)) = ''sensor.lost''"
    "\<not> truthy (e_area_id (mk_entity ''sensor.lost'' None None))"
    "\<not> truthy (e_device_id (mk_entity ''sensor.lost'' None None))"
    by (simp_all add: mk_entity_def truthy_def str_or_empty_def)
  show ?thesis
    using lost_active
    by (simp add: token_match_step_def Let_def e m initial_planner_def)
qed

lemma lost_area_passes:
  "area_passes plain_config True lost_sensor initial_planner
     = initial_planner\<lparr>actions :=
          [\<lparr>a_id = ''id-0'', a_type = ''create_area'', a_payload = [(''name'', Some ''Onbekend'')],
            a_reason = ''Fallback area requested to ensure everything has an effective area.'',
            a_confidence = 0.6, a_requires_approval = True\<rparr>],
        needs_fallback_onbekend := True\<rparr>"
proof -
  have names: "''Onbekend'' \<notin> area_names_of (f_areas lost_sensor)"
    unfolding area_names_of_def lost_area_tokens by simp
  have c: "fresh_ids plain_config = numbering" "onbekend_area_name plain_config = ''Onbekend''"
    by (simp_all add: plain_config_def)
  have s1: "fold (inherit_step numbering lost_sensor) [mk_entity ''sensor.lost'' None None]
      initial_planner = initial_planner"
    by (simp add: lost_inherit)
  have s2: "fold (device_backfill_step numbering lost_sensor) [] initial_planner = initial_planner"
    by simp
  have s3: "fold (token_match_step numbering True lost_sensor) [mk_entity ''sensor.lost'' None None]
      (initial_planner\<lparr>needs_fallback_onbekend := False\<rparr>)
      = initial_planner\<lparr>needs_fallback_onbekend := True\<rparr>"
    by (simp add: lost_token)
  show ?thesis
    unfolding area_passes_def Let_def lost_entities c s1 s2 s3
    using names
    by (simp add: create_fallback_area_def emit_def initial_planner_def numbering_def decimal_0)
qed

lemma lost_config:
  "fresh_ids plain_config = numbering" "onbekend_area_name plain_config = ''Onbekend''"
  "compile_regex plain_config = (\<lambda>pat. None)"
  by (simp_all add: plain_config_def)

lemma lost_no_rules:
  "entity_area no_rules = []" "device_area no_rules = []" "helper_area_rules no_rules = []"
  by (simp_all add: no_rules_def)

lemma lost_no_effective_area:
  "effective_area_id (mk_entity ''sensor.lost'' None None) (device_map lost_sensor) = None"
  by (simp add: effective_area_id_def mk_entity_def truthy_def)

lemma lost_placement:
  "fallback_placement numbering ''Onbekend'' True lost_sensor s = s"
  by (simp add: fallback_placement_def find_onbekend_area_id_def lost_sensor_def truthy_def)

lemma lost_suffix:
  "suffix_duplicate_step numbering lost_sensor (mk_entity ''sensor.lost'' None None) s = s"
  by (simp add: suffix_duplicate_step_def Let_def mk_entity_def truthy_def str_or_empty_def
      is_suffix_duplicate_entity_def newline_def)

lemma lost_groups: "unique_id_groups [mk_entity ''sensor.lost'' None None] = []"
  by (simp add: unique_id_groups_def mk_entity_def truthy_def first_occurrences_def)

lemma lost_duplicates: "duplicate_passes plain_config lost_sensor s = s"
  unfolding duplicate_passes_def Let_def lost_config lost_groups lost_entities
  by (simp add: lost_suffix)

lemma lost_helper:
  "helper_step numbering lost_sensor [] (mk_entity ''sensor.lost'' None None) s = s"
  by (simp add: helper_step_def Let_def)

lemma lost_rule_passes: "rule_passes plain_config no_rules lost_sensor s = s"
  unfolding rule_passes_def Let_def lost_config lost_no_rules lost_entities
  by (simp add: lost_helper)

lemma lost_media: "media_pass plain_config lost_sensor s = s"
proof -
  have "media_candidate lost_sensor (mk_entity ''sensor.lost'' None None) = None"
    by (simp add: media_candidate_def Let_def mk_entity_def truthy_def str_or_empty_def
        startswith_def)
  then have "List.map_filter (media_candidate lost_sensor) (f_entities lost_sensor) = []"
    by (simp add: lost_entities List.map_filter_simps)
  then show ?thesis
    by (simp add: media_pass_def media_groups_def first_occurrences_def)
qed

lemma lost_run:
  "actions (run_passes plain_config True no_rules lost_sensor)
     = [\<lparr>a_id = ''id-0'', a_type = ''create_area'', a_payload = [(''name'', Some ''Onbekend'')],
         a_reason = ''Fallback area requested to ensure everything has an effective area.'',
         a_confidence = 0.6, a_requires_approval = True\<rparr>]"
  unfolding run_passes_def lost_explicit lost_area_passes lost_config lost_placement
    lost_duplicates lost_rule_passes lost_media
  by simp

lemma fallback_step_remove:
  "planned_entity_remove (fallback_step fresh name aid d er s) = planned_entity_remove s"
  by (simp add: fallback_step_def Let_def emit_def)

lemma fallback_step_places:
  assumes "e_entity_id er = Some entity_id" and "entity_id \<noteq> []"
    and "entity_id \<notin> planned_entity_area s" and "entity_id \<notin> planned_entity_remove s"
    and "active d entity_id" and "\<not> truthy (effective_area_id er (device_map d))"
  shows "\<exists>a \<in> set (actions (fallback_step fresh name aid d er s)). placed_in_fallback entity_id aid a"
proof -
  have t: "truthy (e_entity_id er)" "str_or_empty (e_entity_id er) = entity_id"
    using assms(1,2) by (simp_all add: truthy_def str_or_empty_def)
  show ?thesis
    using assms(3-6)
    by (simp add: fallback_step_def Let_def t emit_def placed_in_fallback_def)
qed

lemma fallback_step_marks:
  assumes "e \<in> planned_entity_area (fallback_step fresh name aid d er s)"
  shows "e \<in> planned_entity_area s
     \<or> (\<exists>a \<in> set (actions (fallback_step fresh name aid d er s)). placed_in_fallback e aid a)"
proof (cases "fallback_step fresh name aid d er s = s")
  case True
  with assms show ?thesis by simp
next
  case False
  then have eq: "fallback_step fresh name aid d er s =
      (emit fresh ''set_entity_area''
           [(''entity_id'', Some (str_or_empty (e_entity_id er))), (''area_id'', Some aid)]
           (''Fallback: put entity into area '' @ quoted name @ ''.'') 0.6 True s)
        \<lparr>planned_entity_area := insert (str_or_empty (e_entity_id er)) (planned_entity_area s)\<rparr>"
    by (simp add: fallback_step_def Let_def split: if_splits)
  from assms have "e = str_or_empty (e_entity_id er) \<or> e \<in> planned_entity_area s"
    unfolding eq by simp
  then show ?thesis
  proof
    assume "e = str_or_empty (e_entity_id er)"
    then have "\<exists>a \<in> set (actions (fallback_step fresh name aid d er s)). placed_in_fallback e aid a"
      unfolding eq by (simp add: emit_def placed_in_fallback_def)
    then show ?thesis ..
  next
    assume "e \<in> planned_entity_area s"
    then show ?thesis ..
  qed
qed

lemma fallback_fold_places:
  assumes "er \<in> set xs" and "e_entity_id er = Some entity_id" and "entity_id \<noteq> []"
    and "active d entity_id" and "\<not> truthy (effective_area_id er (device_map d))"
    and "entity_id \<notin> planned_entity_remove s"
  shows "entity_id \<in> planned_entity_area s
     \<or> (\<exists>a \<in> set (actions (fold (fallback_step fresh name aid d) xs s)). placed_in_fallback entity_id aid a)"
  using assms(1,6)
proof (induction xs arbitrary: s)
  case Nil
  then show ?case by simp
next
  case (Cons x xs)
  let ?s = "fallback_step fresh name aid d x s"
  have mono: "set (actions ?s) \<subseteq> set (actions (fold (fallback_step fresh name aid d) xs ?s))"
    by (intro advance_subset advance_fold fallback_step_advance)
  have rem: "entity_id \<notin> planned_entity_remove ?s"
    using Cons.prems(2) by (simp add: fallback_step_remove)
  show ?case
  proof (cases "entity_id \<in> planned_entity_area s")
    case True
    then show ?thesis ..
  next
    case False
    have "\<exists>a \<in> set (actions (fold (fallback_step fresh name aid d) xs ?s)). placed_in_fallback entity_id aid a"
    proof (cases "er = x")
      case True
      with assms(2-5) False Cons.prems(2)
      have "\<exists>a \<in> set (actions ?s). placed_in_fallback entity_id aid a"
        by (intro fallback_step_places) simp_all
      with mono show ?thesis by blast
    next
      case False
      with Cons.prems(1) have "er \<in> set xs" by simp
      from Cons.IH [OF this rem]
      show ?thesis
      proof
        assume "entity_id \<in> planned_entity_area ?s"
        from fallback_step_marks [OF this] \<open>entity_id \<notin> planned_entity_area s\<close>
        have "\<exists>a \<in> set (actions ?s). placed_in_fallback entity_id aid a" by blast
        with mono show ?thesis by blast
      next
        assume "\<exists>a \<in> set (actions (fold (fallback_step fresh name aid d) xs ?s)).
            placed_in_fallback entity_id aid a"
        then show ?thesis .
      qed
    qed
    then show ?thesis by simp
  qed
qed

lemma placed_fingerprint:
  assumes "placed_in_fallback entity_id area_id a" and "entity_id \<noteq> []"
  shows "action_fingerprint a = ''set_entity_area:'' @ entity_id"
  using assms
  by (simp add: placed_in_fallback_def action_fingerprint_def py_get_def py_or_def truthy_def
      str_or_empty_def)

text \<open>
  C3 (amended): with the fallback requested and the fallback grouping already in the
  snapshot (the first area of that name has an identifier), every active entity without
  effective area that the earlier passes have neither placed nor planned for removal
  receives \<open>set_entity_area\<close> into that grouping with confidence 0.6 and approval required;
  the action is in the plan unless its fingerprint is ignored. When no area of that name
  with an identifier is in the snapshot, as when the grouping is only about to be created,
  and when the fallback is not requested, the placement pass emits nothing.
\<close>

theorem fallback_placement_existing_area:
  assumes "find_onbekend_area_id (onbekend_area_name cfg) (f_areas d) = Some area_id"
    and "area_id \<noteq> []"
    and "er \<in> set (f_entities d)" and "e_entity_id er = Some entity_id" and "entity_id \<noteq> []"
    and "active d entity_id" and "\<not> truthy (effective_area_id er (device_map d))"
    and "entity_id \<notin> planned_entity_area
           (area_passes cfg True d (explicit_passes cfg r d initial_planner))"
    and "entity_id \<notin> planned_entity_remove
           (area_passes cfg True d (explicit_passes cfg r d initial_planner))"
  shows "(\<exists>a \<in> set (actions (run_passes cfg True r d)). placed_in_fallback entity_id area_id a)
     \<and> (''set_entity_area:'' @ entity_id \<notin> set ignored \<longrightarrow>
          (\<exists>a \<in> set (p_actions (plan_of cfg now r meta True ignored d)).
              placed_in_fallback entity_id area_id a))
     \<and> (\<not> truthy (find_onbekend_area_id name (f_areas d')) \<longrightarrow>
          fallback_placement fresh name fallback d' s = s)
     \<and> fallback_placement fresh name False d' s = s"
proof -
  let ?s0 = "area_passes cfg True d (explicit_passes cfg r d initial_planner)"
  let ?s1 = "fallback_placement (fresh_ids cfg) (onbekend_area_name cfg) True d ?s0"
  have s1: "?s1 = fold (fallback_step (fresh_ids cfg) (onbekend_area_name cfg) area_id d)
      (f_entities d) ?s0"
    using assms(1,2) by (simp add: fallback_placement_def Let_def truthy_def str_or_empty_def)
  from fallback_fold_places [OF assms(3-7) assms(9), of "fresh_ids cfg" "onbekend_area_name cfg" area_id]
    assms(8)
  have "\<exists>a \<in> set (actions ?s1). placed_in_fallback entity_id area_id a"
    unfolding s1 by blast
  moreover have "set (actions ?s1) \<subseteq> set (actions (run_passes cfg True r d))"
    unfolding run_passes_def by (intro advance_subset later_passes_advance)
  ultimately obtain a where a: "a \<in> set (actions (run_passes cfg True r d))"
      "placed_in_fallback entity_id area_id a"
    by blast
  have one: "\<exists>a \<in> set (actions (run_passes cfg True r d)). placed_in_fallback entity_id area_id a"
    using a by blast
  have two: "''set_entity_area:'' @ entity_id \<notin> set ignored \<longrightarrow>
          (\<exists>a \<in> set (p_actions (plan_of cfg now r meta True ignored d)).
              placed_in_fallback entity_id area_id a)"
  proof
    assume "''set_entity_area:'' @ entity_id \<notin> set ignored"
    then have "action_fingerprint a \<notin> set ignored"
      using placed_fingerprint [OF a(2) assms(5)] by simp
    with a(1) have "a \<in> set (p_actions (plan_of cfg now r meta True ignored d))"
      by (simp add: plan_of_def Let_def visible_actions_def)
    with a(2) show "\<exists>a \<in> set (p_actions (plan_of cfg now r meta True ignored d)).
              placed_in_fallback entity_id area_id a"
      by blast
  qed
  have three: "\<not> truthy (find_onbekend_area_id name (f_areas d')) \<longrightarrow>
          fallback_placement fresh name fallback d' s = s"
    by (simp add: fallback_placement_def Let_def)
  have four: "fallback_placement fresh name False d' s = s"
    by (simp add: fallback_placement_def)
  from one two three four show ?thesis by blast
qed

text \<open>
  C3, as stated, fails for a grouping that is about to be created: with the fallback
  requested, one active entity that no area name matches and no area called Onbekend, the
  plan consists of the \<open>create_area\<close> action alone; the entity, active and without
  effective area, receives no \<open>set_entity_area\<close>.
\<close>

theorem fallback_about_to_be_created_counterexample:
  "actions (run_passes plain_config True no_rules lost_sensor)
     = [\<lparr>a_id = ''id-0'', a_type = ''create_area'', a_payload = [(''name'', Some ''Onbekend'')],
         a_reason = ''Fallback area requested to ensure everything has an effective area.'',
         a_confidence = 0.6, a_requires_approval = True\<rparr>]
   \<and> f_entities lost_sensor = [mk_entity ''sensor.lost'' None None]
   \<and> active lost_sensor ''sensor.lost''
   \<and> effective_area_id (mk_entity ''sensor.lost'' None None) (device_map lost_sensor) = None"
  using lost_run lost_entities(1) lost_active lost_no_effective_area by simp

lemma with_area_parts:
  "f_entities lost_sensor_with_area = [mk_entity ''sensor.lost'' None None]"
  "f_devices lost_sensor_with_area = []"
  by (simp_all add: lost_sensor_with_area_def lost_sensor_def)

lemma with_area_active: "active lost_sensor_with_area ''sensor.lost''"
  by (simp add: active_def is_active_state_def lost_sensor_with_area_def lost_sensor_def
      by_key_def dict_of_def truthy_def str_or_empty_def active_state_def)

lemma with_area_tokens:
  "tokenize (haystack lost_sensor_with_area (mk_entity ''sensor.lost'' None None))
     = {''sensor'', ''lost''}"
  by (simp add: haystack_def join_spaces_def mk_entity_def str_or_empty_def before_of_def
      lost_sensor_with_area_def lost_sensor_def by_key_def dict_of_def truthy_def
      active_state_def tokenize_eval)

lemma with_area_area_tokens:
  "area_tokens_of (f_areas lost_sensor_with_area)
     = [(''kitchen'', ''Kitchen'', {''kitchen''}), (''onbekend'', ''Onbekend'', {''onbekend''})]"
  by (simp add: area_tokens_of_def lost_sensor_with_area_def lost_sensor_def truthy_def
      str_or_empty_def tokenize_eval)

lemma with_area_explicit:
  "explicit_passes plain_config no_rules lost_sensor_with_area initial_planner = initial_planner"
  by (simp add: explicit_passes_def no_rules_def Let_def)

lemma with_area_inherit:
  "inherit_step numbering lost_sensor_with_area (mk_entity ''sensor.lost'' None None)
     initial_planner = initial_planner"
  using with_area_active
  by (simp add: inherit_step_def Let_def mk_entity_def truthy_def str_or_empty_def initial_planner_def)

lemma with_area_token:
  "token_match_step numbering True lost_sensor_with_area (mk_entity ''sensor.lost'' None None)
     (initial_planner\<lparr>needs_fallback_onbekend := False\<rparr>)
   = initial_planner\<lparr>needs_fallback_onbekend := True\<rparr>"
proof -
  have m: "area_matches (area_tokens_of (f_areas lost_sensor_with_area))
      (tokenize (haystack lost_sensor_with_area (mk_entity ''sensor.lost'' None None))) = []"
    unfolding with_area_area_tokens with_area_tokens by (simp add: area_matches_def)
  have e: "truthy (e_entity_id (mk_entity ''sensor.lost'' None None))"
    "str_or_empty (e_entity_id (mk_entity ''sensor.lost'' None None)) = ''sensor.lost''"
    "\<not> truthy (e_area_id (mk_entity ''sensor.lost'' None None))"
    "\<not> truthy (e_device_id (mk_entity ''sensor.lost'' None None))"
    by (simp_all add: mk_entity_def truthy_def str_or_empty_def)
  show ?thesis
    using with_area_active
    by (simp add: token_match_step_def Let_def e m initial_planner_def)
qed

lemma with_area_area_passes:
  "area_passes plain_config True lost_sensor_with_area initial_planner
     = initial_planner\<lparr>needs_fallback_onbekend := True\<rparr>"
proof -
  have names: "''Onbekend'' \<in> area_names_of (f_areas lost_sensor_with_area)"
    unfolding area_names_of_def with_area_area_tokens by simp
  have s1: "fold (inherit_step numbering lost_sensor_with_area) [mk_entity ''sensor.lost'' None None]
      initial_planner = initial_planner"
    by (simp add: with_area_inherit)
  have s2: "fold (device_backfill_step numbering lost_sensor_with_area) [] initial_planner
      = initial_planner"
    by simp
  have s3: "fold (token_match_step numbering True lost_sensor_with_area)
      [mk_entity ''sensor.lost'' None None]
      (initial_planner\<lparr>needs_fallback_onbekend := False\<rparr>)
      = initial_planner\<lparr>needs_fallback_onbekend := True\<rparr>"
    by (simp add: with_area_token)
  show ?thesis
    unfolding area_passes_def Let_def with_area_parts lost_config(1,2) s1 s2 s3
    using names
    by (simp add: create_fallback_area_def)
qed

theorem fallback_placement_existing_area_witness:
  "\<exists>a \<in> set (actions (run_passes plain_config True no_rules lost_sensor_with_area)).
      placed_in_fallback ''sensor.lost'' ''onbekend'' a"
proof -
  let ?er = "mk_entity ''sensor.lost'' None None"
  have h1: "find_onbekend_area_id (onbekend_area_name plain_config) (f_areas lost_sensor_with_area)
      = Some ''onbekend''"
    by (simp add: find_onbekend_area_id_def plain_config_def lost_sensor_with_area_def lost_sensor_def)
  have h3: "?er \<in> set (f_entities lost_sensor_with_area)"
    by (simp add: with_area_parts)
  have h4: "e_entity_id ?er = Some ''sensor.lost''" by (simp add: mk_entity_def)
  have h7: "\<not> truthy (effective_area_id ?er (device_map lost_sensor_with_area))"
    by (simp add: effective_area_id_def mk_entity_def truthy_def)
  have h8: "''sensor.lost'' \<notin> planned_entity_area
      (area_passes plain_config True lost_sensor_with_area
         (explicit_passes plain_config no_rules lost_sensor_with_area initial_planner))"
    unfolding with_area_explicit with_area_area_passes by (simp add: initial_planner_def)
  have h9: "''sensor.lost'' \<notin> planned_entity_remove
      (area_passes plain_config True lost_sensor_with_area
         (explicit_passes plain_config no_rules lost_sensor_with_area initial_planner))"
    unfolding with_area_explicit with_area_area_passes by (simp add: initial_planner_def)
  from fallback_placement_existing_area [OF h1 _ h3 h4 _ with_area_active h7 h8 h9,
      THEN conjunct1]
  show ?thesis by simp
qed


end
